theory Spec2Isabelle
  imports Main "HOL-Library.AList" "HOL-Library.Char_ord" "HOL-Library.List_Lexorder"
begin

section \<open>Python values met by barqing.py\<close>

text \<open>
  The body of an API reply, once \<^verbatim>\<open>r.json()\<close> has parsed it, is a Python value built
  from \<^verbatim>\<open>None\<close>, booleans, integers, strings, lists and dicts. A dict is the list of its
  items in insertion order (so its keys are distinct). Number literals with a fraction or
  an exponent (Python floats) are not part of the model.
\<close>

datatype json =
    JNull
  | JBool bool
  | JInt int
  | JStr string
  | JList "json list"
  | JDict "(string \<times> json) list"

text \<open>The exceptions the source can raise on such values, and how a block of code ends.\<close>

datatype exn = KeyError | TypeError | IndexError | AttributeError

datatype outcome = Normal | Raised exn

text \<open>
  \<^verbatim>\<open>x[k]\<close> with a string \<open>k\<close>: only a dict accepts it, and raises \<^verbatim>\<open>KeyError\<close> when the key
  is missing; a list or a string wants an integer index, the other values are not
  subscriptable (both \<^verbatim>\<open>TypeError\<close>).
\<close>

fun getitem :: "json \<Rightarrow> string \<Rightarrow> exn + json" where
  "getitem (JDict kvs) k = (case map_of kvs k of None \<Rightarrow> Inl KeyError | Some v \<Rightarrow> Inr v)"
| "getitem (JList xs) k = Inl TypeError"
| "getitem (JStr s) k = Inl TypeError"
| "getitem (JInt n) k = Inl TypeError"
| "getitem (JBool b) k = Inl TypeError"
| "getitem JNull k = Inl TypeError"

text \<open>
  \<^verbatim>\<open>for x in v\<close>: a list yields its elements, a dict its keys, a string its characters (as
  strings of length one); nothing else is iterable.
\<close>

fun py_iter :: "json \<Rightarrow> exn + json list" where
  "py_iter (JList xs) = Inr xs"
| "py_iter (JDict kvs) = Inr (map (\<lambda>kv. JStr (fst kv)) kvs)"
| "py_iter (JStr s) = Inr (map (\<lambda>c. JStr [c]) s)"
| "py_iter (JInt n) = Inl TypeError"
| "py_iter (JBool b) = Inl TypeError"
| "py_iter JNull = Inl TypeError"

text \<open>\<^verbatim>\<open>isinstance(d, dict)\<close>\<close>

fun is_dict :: "json \<Rightarrow> bool" where
  "is_dict (JDict kvs) = True"
| "is_dict v = False"

text \<open>Truth value of a Python value, as \<^verbatim>\<open>not v\<close> tests it.\<close>

fun py_truthy :: "json \<Rightarrow> bool" where
  "py_truthy JNull = False"
| "py_truthy (JBool b) = b"
| "py_truthy (JInt n) = (n \<noteq> 0)"
| "py_truthy (JStr s) = (s \<noteq> [])"
| "py_truthy (JList xs) = (xs \<noteq> [])"
| "py_truthy (JDict kvs) = (kvs \<noteq> [])"

text \<open>
  Python's \<^verbatim>\<open>==\<close> identifies \<^verbatim>\<open>True\<close> with \<open>1\<close> and \<^verbatim>\<open>False\<close> with \<open>0\<close>, compares lists
  element by element and dicts as sets of items. \<open>canon\<close> maps a value to the
  representative of its class (booleans become integers, the items of a dict are sorted
  by key), so two values are \<^verbatim>\<open>==\<close> exactly when their representatives coincide.
\<close>

primrec canon :: "json \<Rightarrow> json" where
  "canon JNull = JNull"
| "canon (JBool b) = JInt (if b then 1 else 0)"
| "canon (JInt n) = JInt n"
| "canon (JStr s) = JStr s"
| "canon (JList xs) = JList (map canon xs)"
| "canon (JDict kvs) = JDict (sort_key fst (map (map_prod id canon) kvs))"

definition py_eq :: "json \<Rightarrow> json \<Rightarrow> bool" where
  "py_eq a b = (canon a = canon b)"

definition py_ne :: "json \<Rightarrow> json \<Rightarrow> bool" where
  "py_ne a b = (\<not> py_eq a b)"

text \<open>
  The key under which a Python dict files a value: lists and dicts are unhashable
  (\<^verbatim>\<open>TypeError\<close>, here \<open>None\<close>), and keys that are \<^verbatim>\<open>==\<close> name the same entry.
\<close>

fun hash_key :: "json \<Rightarrow> json option" where
  "hash_key (JList xs) = None"
| "hash_key (JDict kvs) = None"
| "hash_key v = Some (canon v)"

section \<open>The data classes\<close>

text \<open>
  \<^verbatim>\<open>Chat\<close> and \<^verbatim>\<open>RefresherData\<close>. The field \<^verbatim>\<open>Chat.id\<close> is \<open>id'\<close> here. The dict
  \<^verbatim>\<open>chats\<close> is the list of its items in insertion order, keyed by \<open>hash_key\<close>;
  \<^verbatim>\<open>update_data\<close> is the Telegram chat id the login came from; \<^verbatim>\<open>self_id\<close> starts as
  \<^verbatim>\<open>None\<close>, which is \<open>JNull\<close>.
\<close>

record Chat =
  id' :: json
  last_msg :: json

record RefresherData =
  chats :: "(json \<times> Chat) list"
  auth :: string
  running :: bool
  update_data :: int
  self_id :: json

definition NEWMSG :: int where
  "NEWMSG = 0"

text \<open>An item of the update queue: \<^verbatim>\<open>(update_data, NEWMSG, (sender, content))\<close>.\<close>

type_synonym update = "int \<times> int \<times> json \<times> json"

section \<open>The Refresher\<close>

text \<open>
  What the remote API answers to one POST: the status, the parsed body when
  \<^verbatim>\<open>r.json()\<close> succeeds (\<open>None\<close> when it raises), and the body as text.
\<close>

record http_response =
  status :: int
  json_body :: "json option"
  text_body :: string

text \<open>What the two \<^verbatim>\<open>print\<close> calls write: \<^verbatim>\<open>print(self.data)\<close> and \<^verbatim>\<open>print(status, d)\<close>.\<close>

datatype printed = PrintData RefresherData | PrintStatus int json

text \<open>
  A Refresher with the traces of its effects: \<open>data\<close> and \<open>update_queue\<close> are the
  object's fields (the queue is unbounded, so \<^verbatim>\<open>put\<close> appends and never waits);
  \<open>posted\<close> lists the queries posted to \<^verbatim>\<open>api_url\<close>, \<open>printed\<close> what went to standard
  output, both in order.
\<close>

record Refresher =
  data :: RefresherData
  update_queue :: "update list"
  posted :: "string list"
  printed :: "printed list"

definition identity_query :: string where
  "identity_query = ''{ user { profile { id } } }''"

definition chats_query :: string where
  "chats_query = ''{ chats { id lastMessage { profile { id displayName } content id } } }''"

text \<open>
  \<^verbatim>\<open>_api\<close> (lines 52-58): post the query, then return the status with the parsed body, or
  with the body as a string when parsing raises.
\<close>

definition api :: "string \<Rightarrow> http_response \<Rightarrow> Refresher \<Rightarrow> Refresher \<times> int \<times> json" where
  "api query r w =
     (w\<lparr>posted := posted w @ [query]\<rparr>,
      status r,
      (case json_body r of Some j \<Rightarrow> j | None \<Rightarrow> JStr (text_body r)))"

text \<open>
  Lines 69-72, the reads at the head of the loop body: \<^verbatim>\<open>chat['id']\<close>,
  \<^verbatim>\<open>chat['lastMessage']\<close>, \<^verbatim>\<open>msg['id']\<close>, \<^verbatim>\<open>msg['content']\<close>, in this order.
\<close>

definition chat_fields :: "json \<Rightarrow> exn + (json \<times> json \<times> json \<times> json)" where
  "chat_fields chat =
     (case getitem chat ''id'' of Inl e \<Rightarrow> Inl e | Inr chat_id \<Rightarrow>
      (case getitem chat ''lastMessage'' of Inl e \<Rightarrow> Inl e | Inr msg \<Rightarrow>
       (case getitem msg ''id'' of Inl e \<Rightarrow> Inl e | Inr msg_id \<Rightarrow>
        (case getitem msg ''content'' of Inl e \<Rightarrow> Inl e | Inr content \<Rightarrow>
           Inr (chat_id, msg, msg_id, content)))))"

text \<open>
  Lines 80-81, the reads of a new message: \<^verbatim>\<open>msg['profile']['displayName']\<close>, then
  \<^verbatim>\<open>msg['profile']['id']\<close>.
\<close>

definition sender_fields :: "json \<Rightarrow> exn + (json \<times> json)" where
  "sender_fields msg =
     (case getitem msg ''profile'' of Inl e \<Rightarrow> Inl e | Inr p \<Rightarrow>
      (case getitem p ''displayName'' of Inl e \<Rightarrow> Inl e | Inr sender \<Rightarrow>
       (case getitem msg ''profile'' of Inl e \<Rightarrow> Inl e | Inr p' \<Rightarrow>
        (case getitem p' ''id'' of Inl e \<Rightarrow> Inl e | Inr author \<Rightarrow>
           Inr (sender, author)))))"

text \<open>
  Lines 69-83, the body of the loop of \<^verbatim>\<open>_do_refresh\<close> for one element of
  \<^verbatim>\<open>d['data']['chats']\<close>. An exception leaves the state as the statements before it
  made it.
\<close>

definition refresh_chat :: "json \<Rightarrow> Refresher \<Rightarrow> Refresher \<times> outcome" where
  "refresh_chat chat w =
     (case chat_fields chat of Inl e \<Rightarrow> (w, Raised e) | Inr (chat_id, msg, msg_id, content) \<Rightarrow>
      (case hash_key chat_id of None \<Rightarrow> (w, Raised TypeError) | Some k \<Rightarrow>
       (let cs = chats (data w);
            cs1 = (if map_of cs k = None
                   then AList.update k \<lparr>id' = chat_id, last_msg = msg_id\<rparr> cs else cs);
            w1 = w\<lparr>data := (data w)\<lparr>chats := cs1\<rparr>\<rparr>
        in (case map_of cs1 k of None \<Rightarrow> (w1, Raised KeyError) | Some c \<Rightarrow>
            if py_ne (last_msg c) msg_id then
              (let w2 = w\<lparr>data := (data w)\<lparr>chats := AList.update k (c\<lparr>last_msg := msg_id\<rparr>) cs1\<rparr>\<rparr>
               in (case sender_fields msg of Inl e \<Rightarrow> (w2, Raised e) | Inr (sender, author) \<Rightarrow>
                   if py_eq author (self_id (data w)) then (w2, Normal)
                   else (w2\<lparr>update_queue :=
                              update_queue w @ [(update_data (data w), NEWMSG, sender, content)]\<rparr>,
                         Normal)))
            else (w1, Normal)))))"

text \<open>Line 68, the loop: the elements in order, until one raises.\<close>

fun refresh_chats :: "json list \<Rightarrow> Refresher \<Rightarrow> Refresher \<times> outcome" where
  "refresh_chats [] w = (w, Normal)"
| "refresh_chats (chat # rest) w =
     (case refresh_chat chat w of
        (w', Normal) \<Rightarrow> refresh_chats rest w'
      | (w', Raised e) \<Rightarrow> (w', Raised e))"

text \<open>Line 68, what the loop runs over: \<^verbatim>\<open>d['data']['chats']\<close>, iterated.\<close>

definition reported_chats :: "json \<Rightarrow> exn + json list" where
  "reported_chats d =
     (case getitem d ''data'' of Inl e \<Rightarrow> Inl e | Inr x \<Rightarrow>
      (case getitem x ''chats'' of Inl e \<Rightarrow> Inl e | Inr y \<Rightarrow> py_iter y))"

text \<open>\<^verbatim>\<open>_do_refresh\<close> (lines 60-85), given the reply to its POST.\<close>

definition do_refresh :: "http_response \<Rightarrow> Refresher \<Rightarrow> Refresher \<times> outcome" where
  "do_refresh r w =
     (case api chats_query r w of (w1, st, d) \<Rightarrow>
        if st = 200 \<and> is_dict d then
          (case reported_chats d of Inl e \<Rightarrow> (w1, Raised e) | Inr cs \<Rightarrow> refresh_chats cs w1)
        else (w1\<lparr>printed := printed w1 @ [PrintStatus st d]\<rparr>, Normal))"

text \<open>
  Lines 38-44 of \<^verbatim>\<open>run\<close>: the identity query, posted when \<^verbatim>\<open>self_id\<close> is not yet a true
  value, given the reply to it.
\<close>

definition profile_id :: "json \<Rightarrow> exn + json" where
  "profile_id d =
     (case getitem d ''data'' of Inl e \<Rightarrow> Inl e | Inr x \<Rightarrow>
      (case getitem x ''user'' of Inl e \<Rightarrow> Inl e | Inr u \<Rightarrow>
       (case getitem u ''profile'' of Inl e \<Rightarrow> Inl e | Inr p \<Rightarrow> getitem p ''id'')))"

definition resolve_self :: "http_response \<Rightarrow> Refresher \<Rightarrow> Refresher \<times> outcome" where
  "resolve_self r w =
     (if \<not> py_truthy (self_id (data w)) then
        (case api identity_query r w of (w1, st, d) \<Rightarrow>
           if st = 200 \<and> is_dict d then
             (case profile_id d of Inl e \<Rightarrow> (w1, Raised e) | Inr v \<Rightarrow>
                (let dat = (data w1)\<lparr>self_id := v\<rparr>
                 in (w1\<lparr>data := dat, printed := printed w1 @ [PrintData dat]\<rparr>, Normal)))
           else (w1\<lparr>printed := printed w1 @ [PrintStatus st d]\<rparr>, Normal))
      else (w, Normal))"

text \<open>
  Lines 46-49 of \<^verbatim>\<open>run\<close>: the loop never ends by itself, so the model runs it for as
  many ticks as the list has replies, the reply of a tick being what the API would answer
  to a POST made at that tick. \<open>Normal\<close> then says that the loop is still running after
  these ticks; an exception ends it (and the task) at once.
\<close>

fun run_loop :: "http_response list \<Rightarrow> Refresher \<Rightarrow> Refresher \<times> outcome" where
  "run_loop [] w = (w, Normal)"
| "run_loop (r # rs) w =
     (if running (data w) then
        (case do_refresh r w of
           (w', Normal) \<Rightarrow> run_loop rs w'
         | (w', Raised e) \<Rightarrow> (w', Raised e))
      else run_loop rs w)"

text \<open>\<^verbatim>\<open>run\<close> (lines 34-49): the identity query, then the loop.\<close>

definition run :: "http_response \<Rightarrow> http_response list \<Rightarrow> Refresher \<Rightarrow> Refresher \<times> outcome" where
  "run r0 rs w =
     (case resolve_self r0 w of
        (w1, Normal) \<Rightarrow> run_loop rs w1
      | (w1, Raised e) \<Rightarrow> (w1, Raised e))"

text \<open>
  What a loop over \<open>cs\<close> puts on the queue: the queue after it, without the items that
  were there before.
\<close>

definition emits :: "json list \<Rightarrow> Refresher \<Rightarrow> update list" where
  "emits cs w = drop (length (update_queue w)) (update_queue (fst (refresh_chats cs w)))"

text \<open>
  The key of the conversation an element of the reply reports, when it has one: the key
  under which the loop body files \<^verbatim>\<open>chat['id']\<close>.
\<close>

definition chat_key :: "json \<Rightarrow> json option" where
  "chat_key chat = (case chat_fields chat of Inl e \<Rightarrow> None | Inr (chat_id, msg, msg_id, content) \<Rightarrow> hash_key chat_id)"

text \<open>
  The reply \<open>r\<close> is a success whose list of conversations is \<open>pre\<close>, then \<open>chat\<close>, then
  \<open>post\<close>, and \<open>chat\<close> is the only element of the list that reports its conversation:
  the API lists every conversation once, with its single latest message.
\<close>

definition reports_once :: "http_response \<Rightarrow> json list \<Rightarrow> json \<Rightarrow> json list \<Rightarrow> bool" where
  "reports_once r pre chat post =
     (status r = 200
      \<and> (case json_body r of None \<Rightarrow> False | Some d \<Rightarrow> reported_chats d = Inr (pre @ chat # post))
      \<and> chat_key chat \<noteq> None
      \<and> chat_key chat \<notin> chat_key ` set (pre @ post))"

section \<open>The Bot\<close>

text \<open>
  The shelf \<^verbatim>\<open>db\<close> maps string keys to stored objects. The program stores two kinds of
  objects: a dict (under \<^verbatim>\<open>'refreshers'\<close>) and \<^verbatim>\<open>RefresherData\<close> instances; the shelf
  of the model holds what has been written to it, a write of \<^verbatim>\<open>db[key] = value\<close> being
  pickled to the store at once.
\<close>

datatype entry = Table "(string \<times> RefresherData) list" | Session RefresherData

type_synonym shelf = "(string \<times> entry) list"

text \<open>The tasks created with \<^verbatim>\<open>asyncio.create_task\<close>.\<close>

datatype task = UpdatesTask | SyncTask | RefresherTask int

text \<open>
  The Bot: its shelf, the queue its Refreshers share, the Refreshers by Telegram chat id
  (each is its \<^verbatim>\<open>RefresherData\<close>, the queue being the shared one), its tasks, and the
  trace of the replies it sent with \<^verbatim>\<open>msg.reply\<close> (chat id and text).
\<close>

record Bot =
  db :: shelf
  refresher_queue :: "update list"
  refreshers :: "(int \<times> RefresherData) list"
  tasks :: "task list"
  replies :: "(int \<times> string) list"

text \<open>
  \<^verbatim>\<open>refdata['update_data']\<close> (line 98): a \<^verbatim>\<open>RefresherData\<close> is a plain dataclass instance,
  which is not subscriptable.
\<close>

definition data_getitem :: "RefresherData \<Rightarrow> string \<Rightarrow> exn + int" where
  "data_getitem refdata k = Inl TypeError"

text \<open>Lines 96-98: the loop over \<^verbatim>\<open>self._db['refreshers'].values()\<close>.\<close>

fun load_refreshers ::
  "RefresherData list \<Rightarrow> (int \<times> RefresherData) list \<Rightarrow> exn + (int \<times> RefresherData) list" where
  "load_refreshers [] acc = Inr acc"
| "load_refreshers (refdata # rest) acc =
     (case data_getitem refdata ''update_data'' of
        Inl e \<Rightarrow> Inl e
      | Inr uid \<Rightarrow> load_refreshers rest (AList.update uid refdata acc))"

text \<open>
  \<^verbatim>\<open>Bot.__init__\<close> (lines 88-101) on a shelf: the new Bot, or the exception and the
  shelf as the constructor left it.
\<close>

definition Bot_init :: "shelf \<Rightarrow> (exn \<times> shelf) + Bot" where
  "Bot_init sh =
     (let sh1 = (if map_of sh ''refreshers'' = None
                 then AList.update ''refreshers'' (Table []) sh else sh)
      in (case map_of sh1 ''refreshers'' of
            None \<Rightarrow> Inl (KeyError, sh1)
          | Some (Session d) \<Rightarrow> Inl (AttributeError, sh1)
          | Some (Table kvs) \<Rightarrow>
              (case load_refreshers (map snd kvs) [] of
                 Inl e \<Rightarrow> Inl (e, sh1)
               | Inr rs \<Rightarrow>
                   Inr \<lparr>db = sh1, refresher_queue = [], refreshers = rs, tasks = [], replies = []\<rparr>)))"

text \<open>An incoming Telegram message: \<^verbatim>\<open>msg.text\<close> and \<^verbatim>\<open>msg.chat.id\<close>.\<close>

record Message =
  msg_text :: "string option"
  msg_chat_id :: int

text \<open>
  \<^verbatim>\<open>str.split()\<close>: the maximal runs of characters that are not whitespace. Characters
  are those below 256; the whitespace among them is what \<^verbatim>\<open>str.isspace\<close> accepts.
\<close>

definition is_space :: "char \<Rightarrow> bool" where
  "is_space c = (of_char c \<in> {9, 10, 11, 12, 13, 28, 29, 30, 31, 32, 133, 160 :: nat})"

fun split_from :: "string \<Rightarrow> string \<Rightarrow> string list" where
  "split_from cur [] = (if cur = [] then [] else [cur])"
| "split_from cur (c # cs) =
     (if is_space c then (if cur = [] then split_from [] cs else cur # split_from [] cs)
      else split_from (cur @ [c]) cs)"

definition py_split :: "string \<Rightarrow> string list" where
  "py_split s = split_from [] s"

text \<open>\<^verbatim>\<open>s.startswith('/')\<close>\<close>

fun starts_with_slash :: "string \<Rightarrow> bool" where
  "starts_with_slash [] = False"
| "starts_with_slash (c # cs) = (c = CHR ''/'')"

text \<open>\<^verbatim>\<open>str(n)\<close> for an integer: its decimal digits, with a minus sign when negative.\<close>

fun str_nat :: "nat \<Rightarrow> string" where
  "str_nat n = (if n < 10 then [char_of (48 + n)] else str_nat (n div 10) @ [char_of (48 + n mod 10)])"

definition str_int :: "int \<Rightarrow> string" where
  "str_int i = (if i < 0 then CHR ''-'' # str_nat (nat (- i)) else str_nat (nat i))"

text \<open>\<^verbatim>\<open>await msg.reply(t)\<close>\<close>

definition reply :: "Message \<Rightarrow> string \<Rightarrow> Bot \<Rightarrow> Bot" where
  "reply msg t b = b\<lparr>replies := replies b @ [(msg_chat_id msg, t)]\<rparr>"

text \<open>\<^verbatim>\<open>self._refreshers[msg.chat.id].data.running = v\<close>\<close>

definition set_running :: "int \<Rightarrow> bool \<Rightarrow> Bot \<Rightarrow> Bot" where
  "set_running uid v b = b\<lparr>refreshers := AList.map_entry uid (\<lambda>d. d\<lparr>running := v\<rparr>) (refreshers b)\<rparr>"

text \<open>Lines 124-129, the \<^verbatim>\<open>/start\<close> command.\<close>

definition on_start :: "Message \<Rightarrow> string list \<Rightarrow> Bot \<Rightarrow> Bot" where
  "on_start msg args b =
     (if hd args = ''/start'' then
        (if map_of (refreshers b) (msg_chat_id msg) \<noteq> None
         then reply msg ''receiving messages'' (set_running (msg_chat_id msg) True b)
         else reply msg ''you haven't logged in yet'' b)
      else b)"

text \<open>Lines 130-137, the \<^verbatim>\<open>/login\<close> command.\<close>

definition on_login :: "Message \<Rightarrow> string list \<Rightarrow> Bot \<Rightarrow> Bot" where
  "on_login msg args b =
     (if hd args = ''/login'' \<and> length args = 2 then
        (if map_of (refreshers b) (msg_chat_id msg) = None then
           (let dat = \<lparr>chats = [], auth = args ! 1, running = True,
                       update_data = msg_chat_id msg, self_id = JNull\<rparr>
            in reply msg ''receiving messages''
                 (b\<lparr>db := AList.update (str_int (msg_chat_id msg)) (Session dat) (db b),
                    refreshers := AList.update (msg_chat_id msg) dat (refreshers b),
                    tasks := tasks b @ [RefresherTask (msg_chat_id msg)]\<rparr>))
         else b)
      else b)"

text \<open>Lines 139-144, the \<^verbatim>\<open>/stop\<close> command.\<close>

definition on_stop :: "Message \<Rightarrow> string list \<Rightarrow> Bot \<Rightarrow> Bot" where
  "on_stop msg args b =
     (if hd args = ''/stop'' then
        (if map_of (refreshers b) (msg_chat_id msg) \<noteq> None
         then reply msg ''not receiving messages anymore'' (set_running (msg_chat_id msg) False b)
         else reply msg ''you haven't logged in yet'' b)
      else b)"

text \<open>
  \<^verbatim>\<open>_on_message\<close> (lines 119-144). The three commands are called on a list \<open>args\<close> that is
  not empty: on an empty one \<^verbatim>\<open>args[0]\<close> has raised before.
\<close>

definition on_message :: "Message \<Rightarrow> Bot \<Rightarrow> Bot \<times> outcome" where
  "on_message msg b =
     (case msg_text msg of
        None \<Rightarrow> (b, Normal)
      | Some t \<Rightarrow>
          if t = [] then (b, Normal)
          else (case py_split t of
                  [] \<Rightarrow> (b, Raised IndexError)
                | a # rest \<Rightarrow>
                    if \<not> starts_with_slash a then (b, Normal)
                    else (on_stop msg (a # rest) (on_login msg (a # rest) (on_start msg (a # rest) b)),
                          Normal)))"

section \<open>Example inputs\<close>

text \<open>
  The inputs at which the theorems below are instantiated: a latest message, a
  conversation with its latest message, a successful reply listing conversations, and the
  Refresher of chat 42 with the self id \<^verbatim>\<open>'me'\<close>, an empty queue and nothing printed.
\<close>

abbreviation example_msg :: "string \<Rightarrow> string \<Rightarrow> string \<Rightarrow> string \<Rightarrow> json" where
  "example_msg mid aid name content \<equiv>
     JDict [(''profile'', JDict [(''id'', JStr aid), (''displayName'', JStr name)]),
            (''content'', JStr content), (''id'', JStr mid)]"

abbreviation example_chat :: "string \<Rightarrow> string \<Rightarrow> string \<Rightarrow> string \<Rightarrow> string \<Rightarrow> json" where
  "example_chat cid mid aid name content \<equiv>
     JDict [(''id'', JStr cid), (''lastMessage'', example_msg mid aid name content)]"

abbreviation example_reply :: "json list \<Rightarrow> http_response" where
  "example_reply cs \<equiv>
     \<lparr>status = 200, json_body = Some (JDict [(''data'', JDict [(''chats'', JList cs)])]),
        text_body = []\<rparr>"

abbreviation example_refresher :: "(json \<times> Chat) list \<Rightarrow> string list \<Rightarrow> Refresher" where
  "example_refresher cs ps \<equiv>
     \<lparr>data = \<lparr>chats = cs, auth = ''tok'', running = True, update_data = 42,
                self_id = JStr ''me''\<rparr>,
        update_queue = [], posted = ps, printed = []\<rparr>"

section \<open>Commands\<close>

lemma py_split_Nil: "py_split [] = []"
  by (simp add: py_split_def)

lemma run_loop_inactive: "\<not> running (data w) \<Longrightarrow> run_loop rs w = (w, Normal)"
  by (induction rs) auto

lemma load_refreshers_Inr: "load_refreshers ds acc = Inr rs \<Longrightarrow> ds = [] \<and> rs = acc"
  by (cases ds) (auto simp: data_getitem_def)

lemma Bot_init_no_sessions: "Bot_init sh = Inr b \<Longrightarrow> refreshers b = []"
  by (auto simp: Bot_init_def Let_def
      split: option.splits entry.splits sum.splits if_splits dest: load_refreshers_Inr)

text \<open>
  C9. A \<^verbatim>\<open>/start\<close> or \<^verbatim>\<open>/stop\<close> command from a chat that has no Refresher is answered with
  "you haven't logged in yet" and changes nothing else: the shelf, the registry of
  Refreshers (so no session is created and none is modified), the queue and the tasks
  are as before; the reply is the only effect.
\<close>

theorem start_stop_without_session:
  assumes "msg_text msg = Some t" and "py_split t = a # rest"
    and "a = ''/start'' \<or> a = ''/stop''"
    and "map_of (refreshers b) (msg_chat_id msg) = None"
  shows "on_message msg b =
           (b\<lparr>replies := replies b @ [(msg_chat_id msg, ''you haven't logged in yet'')]\<rparr>, Normal)"
proof -
  from assms(2) have "t \<noteq> []" by (auto simp: py_split_def)
  with assms show ?thesis
    by (auto simp: on_message_def on_start_def on_login_def on_stop_def reply_def)
qed

theorem start_stop_without_session_witness:
  "on_message \<lparr>msg_text = Some ''/stop now'', msg_chat_id = 7\<rparr>
     \<lparr>db = [(''refreshers'', Table [])], refresher_queue = [],
        refreshers = [(3, \<lparr>chats = [], auth = ''tok'', running = True, update_data = 3,
                            self_id = JNull\<rparr>)],
        tasks = [RefresherTask 3], replies = []\<rparr>
   = (\<lparr>db = [(''refreshers'', Table [])], refresher_queue = [],
        refreshers = [(3, \<lparr>chats = [], auth = ''tok'', running = True, update_data = 3,
                            self_id = JNull\<rparr>)],
        tasks = [RefresherTask 3], replies = [(7, ''you haven't logged in yet'')]\<rparr>, Normal)"
  using start_stop_without_session [of "\<lparr>msg_text = Some ''/stop now'', msg_chat_id = 7\<rparr>"
      "''/stop now''" "''/stop''" "[''now'']"
      "\<lparr>db = [(''refreshers'', Table [])], refresher_queue = [],
         refreshers = [(3, \<lparr>chats = [], auth = ''tok'', running = True, update_data = 3,
                             self_id = JNull\<rparr>)],
         tasks = [RefresherTask 3], replies = []\<rparr>"]
  by (simp add: py_split_def is_space_def)

text \<open>
  C8. A \<^verbatim>\<open>/stop\<close> command from a chat that has a Refresher with data \<open>d\<close> changes, besides
  sending its reply, only the \<open>running\<close> flag of that Refresher: the registry maps the chat
  to \<open>d\<close> with \<open>running\<close> false (so with the conversation map and its baselines, the
  credential, the destination and the self id of \<open>d\<close>) and every other chat as before, and
  the shelf, the queue and the tasks are untouched. A Refresher with that data then goes
  through any number of ticks without posting a query, without touching its data and
  without enqueuing anything.
\<close>

theorem stop_clears_only_running:
  assumes "msg_text msg = Some t" and "py_split t = ''/stop'' # rest"
    and "map_of (refreshers b) (msg_chat_id msg) = Some d"
  shows "on_message msg b =
           (b\<lparr>refreshers :=
                 AList.map_entry (msg_chat_id msg) (\<lambda>d. d\<lparr>running := False\<rparr>) (refreshers b),
              replies := replies b @ [(msg_chat_id msg, ''not receiving messages anymore'')]\<rparr>,
            Normal)
         \<and> map_of (refreshers (fst (on_message msg b)))
             = (map_of (refreshers b))(msg_chat_id msg \<mapsto> d\<lparr>running := False\<rparr>)
         \<and> (\<forall>rs q ps pr.
               run_loop rs \<lparr>data = d\<lparr>running := False\<rparr>, update_queue = q, posted = ps, printed = pr\<rparr>
               = (\<lparr>data = d\<lparr>running := False\<rparr>, update_queue = q, posted = ps, printed = pr\<rparr>,
                  Normal))"
proof -
  from assms(2) have "t \<noteq> []" by (auto simp: py_split_def)
  with assms have res: "on_message msg b =
           (b\<lparr>refreshers :=
                 AList.map_entry (msg_chat_id msg) (\<lambda>d. d\<lparr>running := False\<rparr>) (refreshers b),
              replies := replies b @ [(msg_chat_id msg, ''not receiving messages anymore'')]\<rparr>,
            Normal)"
    by (auto simp: on_message_def on_start_def on_login_def on_stop_def reply_def set_running_def)
  have "map_of (AList.map_entry (msg_chat_id msg) (\<lambda>d. d\<lparr>running := False\<rparr>) (refreshers b))
          = (map_of (refreshers b))(msg_chat_id msg \<mapsto> d\<lparr>running := False\<rparr>)"
    using assms(3) by (simp add: map_of_map_entry)
  with res show ?thesis by (simp add: run_loop_inactive)
qed

theorem stop_clears_only_running_witness:
  "on_message \<lparr>msg_text = Some ''/stop'', msg_chat_id = 42\<rparr>
     \<lparr>db = [(''refreshers'', Table [])], refresher_queue = [],
        refreshers = [(42, \<lparr>chats = [(JStr ''c1'', \<lparr>id' = JStr ''c1'', last_msg = JStr ''m1''\<rparr>)],
                             auth = ''tok'', running = True, update_data = 42,
                             self_id = JStr ''me''\<rparr>)],
        tasks = [RefresherTask 42], replies = []\<rparr>
   = (\<lparr>db = [(''refreshers'', Table [])], refresher_queue = [],
        refreshers = [(42, \<lparr>chats = [(JStr ''c1'', \<lparr>id' = JStr ''c1'', last_msg = JStr ''m1''\<rparr>)],
                             auth = ''tok'', running = False, update_data = 42,
                             self_id = JStr ''me''\<rparr>)],
        tasks = [RefresherTask 42], replies = [(42, ''not receiving messages anymore'')]\<rparr>,
      Normal)
   \<and> run_loop [\<lparr>status = 200, json_body = Some (JDict [(''data'', JDict [(''chats'', JList [])])]),
                 text_body = []\<rparr>]
        \<lparr>data = \<lparr>chats = [(JStr ''c1'', \<lparr>id' = JStr ''c1'', last_msg = JStr ''m1''\<rparr>)],
                   auth = ''tok'', running = False, update_data = 42, self_id = JStr ''me''\<rparr>,
           update_queue = [], posted = [], printed = []\<rparr>
     = (\<lparr>data = \<lparr>chats = [(JStr ''c1'', \<lparr>id' = JStr ''c1'', last_msg = JStr ''m1''\<rparr>)],
                   auth = ''tok'', running = False, update_data = 42, self_id = JStr ''me''\<rparr>,
           update_queue = [], posted = [], printed = []\<rparr>, Normal)"
  using stop_clears_only_running [of "\<lparr>msg_text = Some ''/stop'', msg_chat_id = 42\<rparr>"
      "''/stop''" "[]"
      "\<lparr>db = [(''refreshers'', Table [])], refresher_queue = [],
         refreshers = [(42, \<lparr>chats = [(JStr ''c1'', \<lparr>id' = JStr ''c1'', last_msg = JStr ''m1''\<rparr>)],
                              auth = ''tok'', running = True, update_data = 42,
                              self_id = JStr ''me''\<rparr>)],
         tasks = [RefresherTask 42], replies = []\<rparr>"
      "\<lparr>chats = [(JStr ''c1'', \<lparr>id' = JStr ''c1'', last_msg = JStr ''m1''\<rparr>)],
         auth = ''tok'', running = True, update_data = 42, self_id = JStr ''me''\<rparr>"]
  by (simp add: py_split_def is_space_def)

text \<open>
  C6. On an empty shelf the constructor writes the empty dict under \<^verbatim>\<open>'refreshers'\<close>; a
  \<^verbatim>\<open>/login tok\<close> from chat 42 then creates the session (running, no conversations) and
  writes it to the shelf at once, under the key \<^verbatim>\<open>'42'\<close>. The constructor run again on that
  shelf, as at the next process start, reads only the dict under \<^verbatim>\<open>'refreshers'\<close>, which
  is still empty: the Bot it builds has no Refresher, and the session of chat 42 is not
  among the sessions it reconstructs.
\<close>

theorem login_session_not_reloaded:
  "Bot_init [] =
     Inr \<lparr>db = [(''refreshers'', Table [])], refresher_queue = [], refreshers = [],
          tasks = [], replies = []\<rparr>
   \<and> on_message \<lparr>msg_text = Some ''/login tok'', msg_chat_id = 42\<rparr>
       \<lparr>db = [(''refreshers'', Table [])], refresher_queue = [], refreshers = [],
          tasks = [], replies = []\<rparr>
     = (\<lparr>db = [(''refreshers'', Table []),
                (''42'', Session \<lparr>chats = [], auth = ''tok'', running = True,
                                   update_data = 42, self_id = JNull\<rparr>)],
          refresher_queue = [],
          refreshers = [(42, \<lparr>chats = [], auth = ''tok'', running = True,
                              update_data = 42, self_id = JNull\<rparr>)],
          tasks = [RefresherTask 42], replies = [(42, ''receiving messages'')]\<rparr>, Normal)
   \<and> Bot_init [(''refreshers'', Table []),
                (''42'', Session \<lparr>chats = [], auth = ''tok'', running = True,
                                   update_data = 42, self_id = JNull\<rparr>)]
     = Inr \<lparr>db = [(''refreshers'', Table []),
                  (''42'', Session \<lparr>chats = [], auth = ''tok'', running = True,
                                     update_data = 42, self_id = JNull\<rparr>)],
            refresher_queue = [], refreshers = [], tasks = [], replies = []\<rparr>"
proof -
  have init: "Bot_init [] =
     Inr \<lparr>db = [(''refreshers'', Table [])], refresher_queue = [], refreshers = [],
          tasks = [], replies = []\<rparr>"
    by (simp add: Bot_init_def)
  have login: "on_message \<lparr>msg_text = Some ''/login tok'', msg_chat_id = 42\<rparr>
       \<lparr>db = [(''refreshers'', Table [])], refresher_queue = [], refreshers = [],
          tasks = [], replies = []\<rparr>
     = (\<lparr>db = [(''refreshers'', Table []),
                (''42'', Session \<lparr>chats = [], auth = ''tok'', running = True,
                                   update_data = 42, self_id = JNull\<rparr>)],
          refresher_queue = [],
          refreshers = [(42, \<lparr>chats = [], auth = ''tok'', running = True,
                              update_data = 42, self_id = JNull\<rparr>)],
          tasks = [RefresherTask 42], replies = [(42, ''receiving messages'')]\<rparr>, Normal)"
    by code_simp
  have again: "Bot_init [(''refreshers'', Table []),
                (''42'', Session \<lparr>chats = [], auth = ''tok'', running = True,
                                   update_data = 42, self_id = JNull\<rparr>)]
     = Inr \<lparr>db = [(''refreshers'', Table []),
                  (''42'', Session \<lparr>chats = [], auth = ''tok'', running = True,
                                     update_data = 42, self_id = JNull\<rparr>)],
            refresher_queue = [], refreshers = [], tasks = [], replies = []\<rparr>"
    by (simp add: Bot_init_def)
  from init login again show ?thesis by (intro conjI)
qed

section \<open>What a cycle leaves alone\<close>

lemma refresh_chat_frame:
  assumes "refresh_chat chat w = (w', oc)"
  shows "posted w' = posted w \<and> printed w' = printed w \<and> auth (data w') = auth (data w)
       \<and> running (data w') = running (data w) \<and> update_data (data w') = update_data (data w)
       \<and> self_id (data w') = self_id (data w)"
  using assms
  by (auto simp: refresh_chat_def Let_def split: sum.splits option.splits prod.splits if_splits)

lemma refresh_chats_frame:
  "refresh_chats cs w = (w', oc) \<Longrightarrow>
     posted w' = posted w \<and> printed w' = printed w \<and> auth (data w') = auth (data w)
       \<and> running (data w') = running (data w) \<and> update_data (data w') = update_data (data w)
       \<and> self_id (data w') = self_id (data w)"
proof (induction cs arbitrary: w)
  case Nil
  then show ?case by simp
next
  case (Cons chat cs)
  obtain w1 o1 where s: "refresh_chat chat w = (w1, o1)" by (cases "refresh_chat chat w")
  show ?case
  proof (cases o1)
    case Normal
    with Cons.prems s have "refresh_chats cs w1 = (w', oc)" by simp
    from Cons.IH[OF this] refresh_chat_frame[OF s] show ?thesis by simp
  next
    case (Raised e)
    with Cons.prems s have "w' = w1" by simp
    with refresh_chat_frame[OF s] show ?thesis by simp
  qed
qed

lemma do_refresh_frame:
  assumes "do_refresh r w = (w', oc)"
  shows "posted w' = posted w @ [chats_query] \<and> auth (data w') = auth (data w)
       \<and> running (data w') = running (data w) \<and> update_data (data w') = update_data (data w)
       \<and> self_id (data w') = self_id (data w)"
proof (cases "status r = 200 \<and> is_dict (case json_body r of Some j \<Rightarrow> j | None \<Rightarrow> JStr (text_body r))")
  case False
  with assms show ?thesis by (auto simp: do_refresh_def api_def)
next
  case True
  show ?thesis
  proof (cases "reported_chats (case json_body r of Some j \<Rightarrow> j | None \<Rightarrow> JStr (text_body r))")
    case (Inl e)
    with True assms show ?thesis by (auto simp: do_refresh_def api_def)
  next
    case (Inr cs)
    with True assms have "refresh_chats cs (w\<lparr>posted := posted w @ [chats_query]\<rparr>) = (w', oc)"
      by (auto simp: do_refresh_def api_def)
    from refresh_chats_frame[OF this] show ?thesis by simp
  qed
qed

lemma run_loop_frame:
  "run_loop rs w = (w', oc) \<Longrightarrow>
     (\<exists>n\<le>length rs. posted w' = posted w @ replicate n chats_query)
     \<and> self_id (data w') = self_id (data w) \<and> running (data w') = running (data w)"
proof (induction rs arbitrary: w)
  case Nil
  then show ?case by simp
next
  case (Cons r rs)
  show ?case
  proof (cases "running (data w)")
    case False
    with Cons.prems have "w' = w" by (simp add: run_loop_inactive)
    then show ?thesis by simp
  next
    case True
    obtain w1 o1 where s: "do_refresh r w = (w1, o1)" by (cases "do_refresh r w")
    note f = do_refresh_frame[OF s]
    show ?thesis
    proof (cases o1)
      case Normal
      with Cons.prems s True have "run_loop rs w1 = (w', oc)" by simp
      from Cons.IH[OF this] obtain n where n: "n \<le> length rs" "posted w' = posted w1 @ replicate n chats_query"
        and rest: "self_id (data w') = self_id (data w1)" "running (data w') = running (data w1)" by auto
      from n f have "Suc n \<le> length (r # rs) \<and> posted w' = posted w @ replicate (Suc n) chats_query" by simp
      then have "\<exists>n\<le>length (r # rs). posted w' = posted w @ replicate n chats_query" by blast
      with rest f show ?thesis by simp
    next
      case (Raised e)
      with Cons.prems s True have "w' = w1" by simp
      with f have "Suc 0 \<le> length (r # rs) \<and> posted w' = posted w @ replicate (Suc 0) chats_query" by simp
      then have "\<exists>n\<le>length (r # rs). posted w' = posted w @ replicate n chats_query" by blast
      with f \<open>w' = w1\<close> show ?thesis by simp
    qed
  qed
qed

section \<open>Failed queries and the identity query\<close>

text \<open>
  C5, as the code has it. When the reply to the conversations query has a status other
  than 200, or a body that does not parse, or one that parses to something else than an
  object, the cycle prints the status and the body and ends normally with the session
  data and the queue as they were; the loop of \<^verbatim>\<open>run\<close> goes on to the next tick, and a
  running session posts the query again at that tick whatever the next reply is.
\<close>

theorem failed_query_changes_nothing:
  assumes "status r \<noteq> 200 \<or> json_body r = None \<or> (\<exists>j. json_body r = Some j \<and> \<not> is_dict j)"
  shows "do_refresh r w =
           (w\<lparr>posted := posted w @ [chats_query],
              printed := printed w @
                [PrintStatus (status r) (case json_body r of Some j \<Rightarrow> j | None \<Rightarrow> JStr (text_body r))]\<rparr>,
            Normal)
       \<and> (running (data w) \<longrightarrow>
            run_loop (r # rs) w =
              run_loop rs (w\<lparr>posted := posted w @ [chats_query],
                 printed := printed w @
                   [PrintStatus (status r) (case json_body r of Some j \<Rightarrow> j | None \<Rightarrow> JStr (text_body r))]\<rparr>))
       \<and> (running (data w) \<longrightarrow>
            posted (fst (run_loop [r, r'] w)) = posted w @ [chats_query, chats_query])"
proof -
  let ?w1 = "w\<lparr>posted := posted w @ [chats_query],
              printed := printed w @
                [PrintStatus (status r) (case json_body r of Some j \<Rightarrow> j | None \<Rightarrow> JStr (text_body r))]\<rparr>"
  from assms have nd: "status r \<noteq> 200 \<or> \<not> is_dict (case json_body r of Some j \<Rightarrow> j | None \<Rightarrow> JStr (text_body r))"
    by (auto split: option.splits)
  then have one: "do_refresh r w = (?w1, Normal)"
    by (auto simp: do_refresh_def api_def)
  then have loop: "running (data w) \<Longrightarrow> run_loop (r # rs) w = run_loop rs ?w1" for rs
    by simp
  have two: "posted (fst (run_loop [r, r'] w)) = posted w @ [chats_query, chats_query]"
    if run: "running (data w)"
  proof -
    obtain w2 o2 where s: "do_refresh r' ?w1 = (w2, o2)" by (cases "do_refresh r' ?w1")
    from do_refresh_frame[OF s] have p: "posted w2 = posted w @ [chats_query, chats_query]" by simp
    from run have "running (data ?w1)" by simp
    with loop[OF run, of "[r']"] s have "fst (run_loop [r, r'] w) = w2"
      by (cases o2) simp_all
    with p show ?thesis by simp
  qed
  from one loop two show ?thesis by blast
qed

theorem failed_query_changes_nothing_witness:
  "do_refresh \<lparr>status = 500, json_body = None, text_body = ''Internal Server Error''\<rparr>
     \<lparr>data = \<lparr>chats = [], auth = ''tok'', running = True, update_data = 42, self_id = JStr ''me''\<rparr>,
        update_queue = [], posted = [], printed = []\<rparr>
   = (\<lparr>data = \<lparr>chats = [], auth = ''tok'', running = True, update_data = 42, self_id = JStr ''me''\<rparr>,
        update_queue = [], posted = [chats_query], printed = [PrintStatus 500 (JStr ''Internal Server Error'')]\<rparr>, Normal)
   \<and> posted (fst (run_loop
        [\<lparr>status = 500, json_body = None, text_body = ''Internal Server Error''\<rparr>,
         \<lparr>status = 200, json_body = Some (JDict [(''data'', JDict [(''chats'', JList [])])]), text_body = []\<rparr>]
        \<lparr>data = \<lparr>chats = [], auth = ''tok'', running = True, update_data = 42, self_id = JStr ''me''\<rparr>,
        update_queue = [], posted = [], printed = []\<rparr>))
     = [chats_query, chats_query]"
  using failed_query_changes_nothing [of "\<lparr>status = 500, json_body = None, text_body = ''Internal Server Error''\<rparr>"
      "\<lparr>data = \<lparr>chats = [], auth = ''tok'', running = True, update_data = 42, self_id = JStr ''me''\<rparr>,
        update_queue = [], posted = [], printed = []\<rparr>" "[]"
      "\<lparr>status = 200, json_body = Some (JDict [(''data'', JDict [(''chats'', JList [])])]), text_body = []\<rparr>"]
  by (simp del: run_loop.simps)

text \<open>
  C5 as stated fails for a body without a \<^verbatim>\<open>data\<close> field: on a reply with status 200
  whose body is the object \<^verbatim>\<open>{"errors": ["unauthorized"]}\<close>, \<^verbatim>\<open>d['data']\<close> raises
  \<^verbatim>\<open>KeyError\<close>. Nothing is printed, the exception leaves the loop of \<^verbatim>\<open>run\<close>, and the
  second tick never comes: a single query has been posted.
\<close>

theorem missing_data_ends_the_loop:
  "run_loop
     [\<lparr>status = 200, json_body = Some (JDict [(''errors'', JList [JStr ''unauthorized''])]), text_body = []\<rparr>,
      \<lparr>status = 200, json_body = Some (JDict [(''data'', JDict [(''chats'', JList [])])]), text_body = []\<rparr>]
     \<lparr>data = \<lparr>chats = [], auth = ''tok'', running = True, update_data = 42, self_id = JStr ''me''\<rparr>,
        update_queue = [], posted = [], printed = []\<rparr>
   = (\<lparr>data = \<lparr>chats = [], auth = ''tok'', running = True, update_data = 42, self_id = JStr ''me''\<rparr>,
        update_queue = [], posted = [chats_query], printed = []\<rparr>, Raised KeyError)"
  by (simp add: do_refresh_def api_def reported_chats_def)

lemma resolve_self_posted:
  "resolve_self r0 w = (w1, oc) \<Longrightarrow>
     posted w1 = posted w @ (if py_truthy (self_id (data w)) then [] else [identity_query])"
  by (auto simp: resolve_self_def api_def Let_def split: if_splits sum.splits)

text \<open>
  C7, as the code has it. The queries a run posts are the identity query, once and first,
  exactly when the self id is not yet a true value, and after it conversations queries
  only, at most one per tick. When the identity query fails (status other than 200, or a
  body that is not an object), the failure is printed, the loop starts at once with the
  self id as it was, and the self id is still that at the end of the run: no tick
  resolves it. When the identity query succeeds with the id \<open>v\<close>, the self id is \<open>v\<close>
  after any number of ticks.
\<close>

theorem identity_query_only_first:
  shows "(\<exists>n\<le>length rs. posted (fst (run r0 rs w)) =
            posted w @ (if py_truthy (self_id (data w)) then [] else [identity_query])
                     @ replicate n chats_query)
       \<and> (\<not> py_truthy (self_id (data w)) \<and>
            (status r0 \<noteq> 200 \<or> json_body r0 = None \<or> (\<exists>j. json_body r0 = Some j \<and> \<not> is_dict j)) \<longrightarrow>
            run r0 rs w =
              run_loop rs (w\<lparr>posted := posted w @ [identity_query],
                 printed := printed w @
                   [PrintStatus (status r0) (case json_body r0 of Some j \<Rightarrow> j | None \<Rightarrow> JStr (text_body r0))]\<rparr>)
            \<and> self_id (data (fst (run r0 rs w))) = self_id (data w))
       \<and> (\<not> py_truthy (self_id (data w)) \<and> status r0 = 200 \<and> json_body r0 = Some d \<and> is_dict d
            \<and> profile_id d = Inr v \<longrightarrow>
            self_id (data (fst (run r0 rs w))) = v)"
proof -
  obtain w1 o1 where rs0: "resolve_self r0 w = (w1, o1)" by (cases "resolve_self r0 w")
  note p1 = resolve_self_posted[OF rs0]
  have A: "\<exists>n\<le>length rs. posted (fst (run r0 rs w)) =
            posted w @ (if py_truthy (self_id (data w)) then [] else [identity_query])
                     @ replicate n chats_query"
  proof (cases o1)
    case Normal
    obtain w2 o2 where l: "run_loop rs w1 = (w2, o2)" by (cases "run_loop rs w1")
    from run_loop_frame[OF l] obtain n where "n \<le> length rs" "posted w2 = posted w1 @ replicate n chats_query"
      by auto
    moreover from Normal rs0 l have "fst (run r0 rs w) = w2" by (simp add: run_def)
    ultimately show ?thesis using p1 by auto
  next
    case (Raised e)
    with rs0 have "fst (run r0 rs w) = w1" by (simp add: run_def)
    with p1 have "0 \<le> length rs \<and> posted (fst (run r0 rs w)) =
            posted w @ (if py_truthy (self_id (data w)) then [] else [identity_query])
                     @ replicate 0 chats_query" by simp
    then show ?thesis by blast
  qed
  have C: "self_id (data (fst (run r0 rs w))) = self_id (data w1')" if "resolve_self r0 w = (w1', Normal)" for w1'
  proof -
    obtain w2 o2 where l: "run_loop rs w1' = (w2, o2)" by (cases "run_loop rs w1'")
    from that l have "fst (run r0 rs w) = w2" by (simp add: run_def)
    with run_loop_frame[OF l] show ?thesis by simp
  qed
  have B: "run r0 rs w =
              run_loop rs (w\<lparr>posted := posted w @ [identity_query],
                 printed := printed w @
                   [PrintStatus (status r0) (case json_body r0 of Some j \<Rightarrow> j | None \<Rightarrow> JStr (text_body r0))]\<rparr>)
            \<and> self_id (data (fst (run r0 rs w))) = self_id (data w)"
    if f: "\<not> py_truthy (self_id (data w))"
      "status r0 \<noteq> 200 \<or> json_body r0 = None \<or> (\<exists>j. json_body r0 = Some j \<and> \<not> is_dict j)"
  proof -
    let ?w1 = "w\<lparr>posted := posted w @ [identity_query],
                 printed := printed w @
                   [PrintStatus (status r0) (case json_body r0 of Some j \<Rightarrow> j | None \<Rightarrow> JStr (text_body r0))]\<rparr>"
    from f(2) have "status r0 \<noteq> 200 \<or> \<not> is_dict (case json_body r0 of Some j \<Rightarrow> j | None \<Rightarrow> JStr (text_body r0))"
      by (auto split: option.splits)
    with f(1) have r: "resolve_self r0 w = (?w1, Normal)"
      by (auto simp: resolve_self_def api_def)
    then have "run r0 rs w = run_loop rs ?w1" by (simp add: run_def)
    moreover from C[OF r] have "self_id (data (fst (run r0 rs w))) = self_id (data w)" by simp
    ultimately show ?thesis by simp
  qed
  have D: "self_id (data (fst (run r0 rs w))) = v"
    if "\<not> py_truthy (self_id (data w))" "status r0 = 200" "json_body r0 = Some d" "is_dict d"
      "profile_id d = Inr v"
  proof -
    from that have "\<exists>w1. resolve_self r0 w = (w1, Normal) \<and> self_id (data w1) = v"
      by (simp add: resolve_self_def api_def Let_def)
    with C show ?thesis by auto
  qed
  from A B D show ?thesis by blast
qed

theorem identity_query_only_first_witness:
  "run \<lparr>status = 500, json_body = None, text_body = ''Internal Server Error''\<rparr>
     [\<lparr>status = 200, json_body = Some (JDict [(''data'', JDict [(''chats'', JList [])])]), text_body = []\<rparr>]
     \<lparr>data = \<lparr>chats = [], auth = ''tok'', running = True, update_data = 42, self_id = JNull\<rparr>,
        update_queue = [], posted = [], printed = []\<rparr>
   = run_loop [\<lparr>status = 200, json_body = Some (JDict [(''data'', JDict [(''chats'', JList [])])]), text_body = []\<rparr>]
       \<lparr>data = \<lparr>chats = [], auth = ''tok'', running = True, update_data = 42, self_id = JNull\<rparr>,
        update_queue = [], posted = [identity_query], printed = [PrintStatus 500 (JStr ''Internal Server Error'')]\<rparr>
   \<and> self_id (data (fst (run \<lparr>status = 200, json_body = Some (JDict [(''data'', JDict [(''user'', JDict [(''profile'', JDict [(''id'', JStr ''me'')])])])]), text_body = []\<rparr>
        [\<lparr>status = 200, json_body = Some (JDict [(''data'', JDict [(''chats'', JList [])])]), text_body = []\<rparr>]
        \<lparr>data = \<lparr>chats = [], auth = ''tok'', running = True, update_data = 42, self_id = JNull\<rparr>,
        update_queue = [], posted = [], printed = []\<rparr>)))
     = JStr ''me''"
  using identity_query_only_first [of "[\<lparr>status = 200, json_body = Some (JDict [(''data'', JDict [(''chats'', JList [])])]), text_body = []\<rparr>]"
      "\<lparr>status = 500, json_body = None, text_body = ''Internal Server Error''\<rparr>"
      "\<lparr>data = \<lparr>chats = [], auth = ''tok'', running = True, update_data = 42, self_id = JNull\<rparr>,
        update_queue = [], posted = [], printed = []\<rparr>"]
    identity_query_only_first [of "[\<lparr>status = 200, json_body = Some (JDict [(''data'', JDict [(''chats'', JList [])])]), text_body = []\<rparr>]"
      "\<lparr>status = 200, json_body = Some (JDict [(''data'', JDict [(''user'', JDict [(''profile'', JDict [(''id'', JStr ''me'')])])])]), text_body = []\<rparr>"
      "\<lparr>data = \<lparr>chats = [], auth = ''tok'', running = True, update_data = 42, self_id = JNull\<rparr>,
        update_queue = [], posted = [], printed = []\<rparr>"
      "JDict [(''data'', JDict [(''user'', JDict [(''profile'', JDict [(''id'', JStr ''me'')])])])]" "JStr ''me''"]
  by (simp add: profile_id_def del: run_loop.simps)

text \<open>
  C7 as stated fails where it says that a failed resolution is retried on a later tick.
  The identity query is answered with status 500; two ticks follow. The run has posted
  the identity query once, then two conversations queries, and the self id is still
  \<^verbatim>\<open>None\<close>.
\<close>

theorem failed_identity_never_retried:
  "run \<lparr>status = 500, json_body = None, text_body = ''Internal Server Error''\<rparr>
     [\<lparr>status = 200, json_body = Some (JDict [(''data'', JDict [(''chats'', JList [])])]), text_body = []\<rparr>,
      \<lparr>status = 200, json_body = Some (JDict [(''data'', JDict [(''chats'', JList [])])]), text_body = []\<rparr>]
     \<lparr>data = \<lparr>chats = [], auth = ''tok'', running = True, update_data = 42, self_id = JNull\<rparr>,
        update_queue = [], posted = [], printed = []\<rparr>
   = (\<lparr>data = \<lparr>chats = [], auth = ''tok'', running = True, update_data = 42, self_id = JNull\<rparr>,
        update_queue = [], posted = [identity_query, chats_query, chats_query], printed = [PrintStatus 500 (JStr ''Internal Server Error'')]\<rparr>, Normal)"
  by (simp add: run_def resolve_self_def do_refresh_def api_def reported_chats_def)

section \<open>The loop over the reported conversations\<close>

lemma py_eq_refl: "py_eq a a" by (simp add: py_eq_def)
lemma py_ne_irrefl: "\<not> py_ne a a" by (simp add: py_ne_def py_eq_def)

lemma chat_key_fields:
  "chat_fields chat = Inr (cid, msg, mid, content) \<Longrightarrow> chat_key chat = hash_key cid"
  by (simp add: chat_key_def)

lemma refresh_chat_no_key:
  "chat_key chat = None \<Longrightarrow> \<exists>e. refresh_chat chat w = (w, Raised e)"
  by (auto simp: chat_key_def refresh_chat_def split: sum.splits prod.splits)

text \<open>The loop body in terms of the entry it finds.\<close>

lemma refresh_chat_unseen:
  assumes "chat_fields chat = Inr (cid, msg, mid, content)" and "hash_key cid = Some k"
    and "map_of (chats (data w)) k = None"
  shows "refresh_chat chat w =
           (w\<lparr>data := (data w)\<lparr>chats := AList.update k \<lparr>id' = cid, last_msg = mid\<rparr> (chats (data w))\<rparr>\<rparr>,
            Normal)"
  using assms by (simp add: refresh_chat_def Let_def update_conv' py_ne_irrefl)

lemma refresh_chat_same:
  assumes "chat_fields chat = Inr (cid, msg, mid, content)" and "hash_key cid = Some k"
    and "map_of (chats (data w)) k = Some c" and "\<not> py_ne (last_msg c) mid"
  shows "refresh_chat chat w = (w, Normal)"
  using assms by (simp add: refresh_chat_def Let_def)

lemma refresh_chat_new:
  assumes "chat_fields chat = Inr (cid, msg, mid, content)" and "hash_key cid = Some k"
    and "map_of (chats (data w)) k = Some c" and "py_ne (last_msg c) mid"
  shows "refresh_chat chat w =
     (let w2 = w\<lparr>data := (data w)\<lparr>chats := AList.update k (c\<lparr>last_msg := mid\<rparr>) (chats (data w))\<rparr>\<rparr>
      in case sender_fields msg of
           Inl e \<Rightarrow> (w2, Raised e)
         | Inr (sender, author) \<Rightarrow>
             if py_eq author (self_id (data w)) then (w2, Normal)
             else (w2\<lparr>update_queue :=
                        update_queue w @ [(update_data (data w), NEWMSG, sender, content)]\<rparr>, Normal))"
  using assms by (simp add: refresh_chat_def Let_def)

lemma refresh_chat_other_keys:
  assumes "refresh_chat chat w = (w', oc)" and "chat_key chat \<noteq> Some k"
  shows "map_of (chats (data w')) k = map_of (chats (data w)) k"
proof (cases "chat_key chat")
  case None
  with refresh_chat_no_key[of chat w] assms show ?thesis by auto
next
  case (Some k')
  then obtain cid msg mid content where cf: "chat_fields chat = Inr (cid, msg, mid, content)"
    and hk: "hash_key cid = Some k'"
    by (auto simp: chat_key_def split: sum.splits)
  from Some assms(2) have ne: "k' \<noteq> k" by simp
  show ?thesis
  proof (cases "map_of (chats (data w)) k'")
    case None
    from refresh_chat_unseen[OF cf hk None] assms(1) ne show ?thesis
      by (auto simp: update_conv')
  next
    case (Some c)
    show ?thesis
    proof (cases "py_ne (last_msg c) mid")
      case False
      from refresh_chat_same[OF cf hk Some False] assms(1) show ?thesis by auto
    next
      case True
      from refresh_chat_new[OF cf hk Some True] assms(1) ne show ?thesis
        by (auto simp: Let_def update_conv' split: sum.splits prod.splits if_splits)
    qed
  qed
qed

lemma refresh_chat_agree:
  assumes "self_id (data w) = self_id (data t)" and "update_data (data w) = update_data (data t)"
    and "\<And>k. chat_key chat = Some k \<Longrightarrow> map_of (chats (data w)) k = map_of (chats (data t)) k"
    and "refresh_chat chat w = (w', ow)" and "refresh_chat chat t = (t', ot)"
  shows "ow = ot
       \<and> drop (length (update_queue w)) (update_queue w') = drop (length (update_queue t)) (update_queue t')
       \<and> (\<forall>k. chat_key chat = Some k \<longrightarrow> map_of (chats (data w')) k = map_of (chats (data t')) k)"
proof (cases "chat_key chat")
  case None
  with refresh_chat_no_key[of chat w] refresh_chat_no_key[of chat t] assms(4,5) show ?thesis
    by (auto simp: chat_key_def refresh_chat_def split: sum.splits prod.splits)
next
  case (Some k')
  then obtain cid msg mid content where cf: "chat_fields chat = Inr (cid, msg, mid, content)"
    and hk: "hash_key cid = Some k'"
    by (auto simp: chat_key_def split: sum.splits)
  from assms(3)[OF Some] have eq: "map_of (chats (data w)) k' = map_of (chats (data t)) k'" .
  show ?thesis
  proof (cases "map_of (chats (data w)) k'")
    case None
    with eq have None': "map_of (chats (data t)) k' = None" by simp
    from refresh_chat_unseen[OF cf hk None] refresh_chat_unseen[OF cf hk None'] assms(4,5) Some
    show ?thesis by (auto simp: update_conv')
  next
    case (Some c)
    with eq have Some': "map_of (chats (data t)) k' = Some c" by simp
    show ?thesis
    proof (cases "py_ne (last_msg c) mid")
      case False
      from refresh_chat_same[OF cf hk Some False] refresh_chat_same[OF cf hk Some' False] assms(4,5) eq
        \<open>chat_key chat = Some k'\<close>
      show ?thesis by auto
    next
      case True
      from refresh_chat_new[OF cf hk Some True] refresh_chat_new[OF cf hk Some' True] assms(1,2,4,5)
        \<open>chat_key chat = Some k'\<close>
      show ?thesis
        by (auto simp: Let_def update_conv' split: sum.splits prod.splits if_splits)
    qed
  qed
qed

lemma refresh_chat_prefix:
  assumes "refresh_chat chat w = (w', oc)"
  shows "\<exists>es. update_queue w' = update_queue w @ es"
  using assms
  by (auto simp: refresh_chat_def Let_def split: sum.splits option.splits prod.splits if_splits)


lemma refresh_chats_prefix:
  "refresh_chats cs w = (w', oc) \<Longrightarrow> \<exists>es. update_queue w' = update_queue w @ es"
proof (induction cs arbitrary: w)
  case Nil
  then show ?case by simp
next
  case (Cons chat cs)
  obtain w1 o1 where s: "refresh_chat chat w = (w1, o1)" by (cases "refresh_chat chat w")
  from refresh_chat_prefix[OF s] obtain es where es: "update_queue w1 = update_queue w @ es" ..
  show ?case
  proof (cases o1)
    case Normal
    with Cons.prems s have "refresh_chats cs w1 = (w', oc)" by simp
    from Cons.IH[OF this] es show ?thesis by auto
  next
    case (Raised e)
    with Cons.prems s es show ?thesis by auto
  qed
qed

lemma queue_emits: "update_queue (fst (refresh_chats cs w)) = update_queue w @ emits cs w"
proof -
  obtain w' oc where s: "refresh_chats cs w = (w', oc)" by (cases "refresh_chats cs w")
  from refresh_chats_prefix[OF s] s show ?thesis by (auto simp: emits_def)
qed

lemma refresh_chats_other_keys:
  "refresh_chats cs w = (w', oc) \<Longrightarrow> Some k \<notin> chat_key ` set cs \<Longrightarrow>
     map_of (chats (data w')) k = map_of (chats (data w)) k"
proof (induction cs arbitrary: w)
  case Nil
  then show ?case by simp
next
  case (Cons chat cs)
  obtain w1 o1 where s: "refresh_chat chat w = (w1, o1)" by (cases "refresh_chat chat w")
  from Cons.prems(2) have ne: "chat_key chat \<noteq> Some k" and rest: "Some k \<notin> chat_key ` set cs"
    by auto
  note one = refresh_chat_other_keys[OF s ne]
  show ?case
  proof (cases o1)
    case Normal
    with Cons.prems s have "refresh_chats cs w1 = (w', oc)" by simp
    from Cons.IH[OF this rest] one show ?thesis by simp
  next
    case (Raised e)
    with Cons.prems s one show ?thesis by auto
  qed
qed

lemma refresh_chats_append:
  "snd (refresh_chats xs w) = Normal \<Longrightarrow>
     refresh_chats (xs @ ys) w = refresh_chats ys (fst (refresh_chats xs w))"
proof (induction xs arbitrary: w)
  case Nil
  then show ?case by simp
next
  case (Cons chat xs)
  obtain w1 o1 where s: "refresh_chat chat w = (w1, o1)" by (cases "refresh_chat chat w")
  with Cons.prems have n: "o1 = Normal" by (cases o1) auto
  with Cons.prems s have "snd (refresh_chats xs w1) = Normal" by simp
  from Cons.IH[OF this] s n show ?case by simp
qed

lemma emits_append:
  assumes "snd (refresh_chats xs w) = Normal"
  shows "emits (xs @ ys) w = emits xs w @ emits ys (fst (refresh_chats xs w))"
proof -
  have "update_queue (fst (refresh_chats (xs @ ys) w))
          = update_queue w @ emits xs w @ emits ys (fst (refresh_chats xs w))"
    using refresh_chats_append[OF assms, of ys] queue_emits[of ys "fst (refresh_chats xs w)"]
      queue_emits[of xs w] by simp
  then show ?thesis by (simp add: emits_def)
qed

lemma refresh_chats_agree:
  assumes "self_id (data w) = self_id (data t)" and "update_data (data w) = update_data (data t)"
    and "\<And>k. Some k \<in> chat_key ` set cs \<Longrightarrow> map_of (chats (data w)) k = map_of (chats (data t)) k"
  shows "snd (refresh_chats cs w) = snd (refresh_chats cs t) \<and> emits cs w = emits cs t"
  using assms
proof (induction cs arbitrary: w t)
  case Nil
  then show ?case by (simp add: emits_def)
next
  case (Cons chat cs)
  obtain w1 o1 where sw: "refresh_chat chat w = (w1, o1)" by (cases "refresh_chat chat w")
  obtain t1 o2 where st: "refresh_chat chat t = (t1, o2)" by (cases "refresh_chat chat t")
  have own: "map_of (chats (data w)) k = map_of (chats (data t)) k" if "chat_key chat = Some k" for k
    using Cons.prems(3)[of k] that by (metis image_eqI list.set_intros(1))
  from refresh_chat_agree[OF Cons.prems(1,2) own sw st]
  have o: "o1 = o2"
    and e: "drop (length (update_queue w)) (update_queue w1) = drop (length (update_queue t)) (update_queue t1)"
    and k: "\<And>k. chat_key chat = Some k \<Longrightarrow> map_of (chats (data w1)) k = map_of (chats (data t1)) k"
    by auto
  from refresh_chat_prefix[OF sw] obtain ew where ew: "update_queue w1 = update_queue w @ ew" ..
  from refresh_chat_prefix[OF st] obtain et where et: "update_queue t1 = update_queue t @ et" ..
  from e ew et have eq: "ew = et" by simp
  show ?case
  proof (cases o1)
    case (Raised x)
    with o have "o2 = Raised x" by simp
    with Raised sw st e show ?thesis by (simp add: emits_def)
  next
    case Normal
    have a1: "self_id (data w1) = self_id (data t1)" "update_data (data w1) = update_data (data t1)"
      using refresh_chat_frame[OF sw] refresh_chat_frame[OF st] Cons.prems(1,2) by simp_all
    have a3: "map_of (chats (data w1)) k' = map_of (chats (data t1)) k'"
      if "Some k' \<in> chat_key ` set cs" for k'
    proof (cases "chat_key chat = Some k'")
      case True
      with k show ?thesis by simp
    next
      case False
      from refresh_chat_other_keys[OF sw False] refresh_chat_other_keys[OF st False]
        Cons.prems(3)[of k'] that show ?thesis by simp
    qed
    from Cons.IH[OF a1 a3] have ih: "snd (refresh_chats cs w1) = snd (refresh_chats cs t1)"
      "emits cs w1 = emits cs t1" by simp_all
    have qw: "update_queue (fst (refresh_chats (chat # cs) w)) = update_queue w @ ew @ emits cs w1"
      using sw Normal queue_emits[of cs w1] ew by simp
    have qt: "update_queue (fst (refresh_chats (chat # cs) t)) = update_queue t @ et @ emits cs t1"
      using st Normal o queue_emits[of cs t1] et by simp
    from qw qt eq ih(2) have "emits (chat # cs) w = emits (chat # cs) t" by (simp add: emits_def)
    moreover from sw st Normal o ih(1) have "snd (refresh_chats (chat # cs) w) = snd (refresh_chats (chat # cs) t)"
      by simp
    ultimately show ?thesis by simp
  qed
qed

lemma reported_chats_is_dict: "reported_chats d = Inr cs \<Longrightarrow> is_dict d"
  by (cases d) (auto simp: reported_chats_def)

lemma refresh_chats_append_Normal:
  "snd (refresh_chats (xs @ ys) w) = Normal \<Longrightarrow> snd (refresh_chats xs w) = Normal"
proof (induction xs arbitrary: w)
  case Nil
  then show ?case by simp
next
  case (Cons chat xs)
  obtain w1 o1 where s: "refresh_chat chat w = (w1, o1)" by (cases "refresh_chat chat w")
  with Cons.prems have n: "o1 = Normal" by (cases o1) auto
  with Cons.prems s have "snd (refresh_chats (xs @ ys) w1) = Normal" by simp
  from Cons.IH[OF this] s n show ?case by simp
qed

lemma posted_irrelevant:
  "snd (refresh_chats cs (w\<lparr>posted := p\<rparr>)) = snd (refresh_chats cs w)
   \<and> emits cs (w\<lparr>posted := p\<rparr>) = emits cs w"
  by (rule refresh_chats_agree) simp_all

lemma do_refresh_reports:
  assumes "reports_once r pre chat post"
  shows "do_refresh r w = refresh_chats (pre @ chat # post) (w\<lparr>posted := posted w @ [chats_query]\<rparr>)"
proof -
  from assms obtain d where d: "json_body r = Some d" "reported_chats d = Inr (pre @ chat # post)"
    and st: "status r = 200"
    by (auto simp: reports_once_def split: option.splits)
  from reported_chats_is_dict[OF d(2)] d st show ?thesis
    by (simp add: do_refresh_def api_def)
qed

text \<open>
  The iteration for a conversation that is reported once: what the whole loop enqueues
  and where it leaves the entry of the conversation, from what that iteration does.
\<close>

lemma loop_at_chat:
  assumes pre: "snd (refresh_chats pre w) = Normal"
    and key: "chat_key chat = Some k"
    and once: "Some k \<notin> chat_key ` set (pre @ post)"
    and step: "refresh_chat chat (fst (refresh_chats pre w)) = (w2, Normal)"
    and q: "update_queue w2 = update_queue (fst (refresh_chats pre w)) @ es"
  shows "emits (pre @ chat # post) w = emits pre w @ es @ emits post (fst (refresh_chats pre w))"
    and "emits (pre @ post) w = emits pre w @ emits post (fst (refresh_chats pre w))"
    and "map_of (chats (data (fst (refresh_chats (pre @ chat # post) w)))) k = map_of (chats (data w2)) k"
proof -
  let ?w1 = "fst (refresh_chats pre w)"
  from once have kpre: "Some k \<notin> chat_key ` set pre" and kpost: "Some k \<notin> chat_key ` set post"
    by auto
  show "emits (pre @ post) w = emits pre w @ emits post ?w1"
    by (rule emits_append[OF pre])
  have all: "refresh_chats (pre @ chat # post) w = refresh_chats post w2"
    using refresh_chats_append[OF pre, of "chat # post"] step by simp
  show "map_of (chats (data (fst (refresh_chats (pre @ chat # post) w)))) k = map_of (chats (data w2)) k"
    using refresh_chats_other_keys[of post w2 "fst (refresh_chats post w2)" "snd (refresh_chats post w2)" k]
      kpost all by simp
  have agree: "emits post w2 = emits post ?w1"
  proof -
    have "snd (refresh_chats post w2) = snd (refresh_chats post ?w1) \<and> emits post w2 = emits post ?w1"
    proof (rule refresh_chats_agree)
      from refresh_chat_frame[OF step]
      show "self_id (data w2) = self_id (data ?w1)" "update_data (data w2) = update_data (data ?w1)"
        by simp_all
    next
      fix k' assume "Some k' \<in> chat_key ` set post"
      with kpost key have "chat_key chat \<noteq> Some k'" by auto
      from refresh_chat_other_keys[OF step this]
      show "map_of (chats (data w2)) k' = map_of (chats (data ?w1)) k'" .
    qed
    then show ?thesis by simp
  qed
  have "emits (chat # post) ?w1 = es @ emits post w2"
  proof -
    have "update_queue (fst (refresh_chats (chat # post) ?w1)) = update_queue ?w1 @ es @ emits post w2"
      using step q queue_emits[of post w2] by simp
    then show ?thesis by (simp add: emits_def)
  qed
  with emits_append[OF pre, of "chat # post"] agree
  show "emits (pre @ chat # post) w = emits pre w @ es @ emits post ?w1" by simp
qed

text \<open>The same for a whole cycle.\<close>

lemma cycle_at_chat:
  assumes rep: "reports_once r pre chat post"
    and pre: "snd (refresh_chats pre w) = Normal"
    and cf: "chat_fields chat = Inr (cid, msg, mid, content)" and hk: "hash_key cid = Some k"
    and step: "\<And>w1. map_of (chats (data w1)) k = map_of (chats (data w)) k \<Longrightarrow>
        self_id (data w1) = self_id (data w) \<Longrightarrow> update_data (data w1) = update_data (data w) \<Longrightarrow>
        \<exists>w2. refresh_chat chat w1 = (w2, Normal) \<and> update_queue w2 = update_queue w1 @ es
           \<and> map_of (chats (data w2)) k = res"
  shows "update_queue (fst (do_refresh r w)) =
           update_queue w @ emits pre w @ es @ emits post (fst (refresh_chats pre w))"
    and "emits (pre @ post) w = emits pre w @ emits post (fst (refresh_chats pre w))"
    and "map_of (chats (data (fst (do_refresh r w)))) k = res"
proof -
  let ?wp = "w\<lparr>posted := posted w @ [chats_query]\<rparr>"
  let ?w1 = "fst (refresh_chats pre ?wp)"
  from cf hk have key: "chat_key chat = Some k" by (simp add: chat_key_def)
  with rep have once: "Some k \<notin> chat_key ` set (pre @ post)" by (simp add: reports_once_def)
  from pre posted_irrelevant[where cs=pre and w=w] have pre': "snd (refresh_chats pre ?wp) = Normal" by simp
  have k1: "map_of (chats (data ?w1)) k = map_of (chats (data w)) k"
    using refresh_chats_other_keys[of pre ?wp ?w1 "snd (refresh_chats pre ?wp)" k] once by auto
  have f1: "self_id (data ?w1) = self_id (data w)" "update_data (data ?w1) = update_data (data w)"
    using refresh_chats_frame[of pre ?wp ?w1 "snd (refresh_chats pre ?wp)"] by simp_all
  from step[OF k1 f1] obtain w2 where s2: "refresh_chat chat ?w1 = (w2, Normal)"
    and q2: "update_queue w2 = update_queue ?w1 @ es" and r2: "map_of (chats (data w2)) k = res"
    by blast
  note L = loop_at_chat[OF pre' key once s2 q2]
  have post_eq: "emits post ?w1 = emits post (fst (refresh_chats pre w))"
  proof -
    have "emits (pre @ post) ?wp = emits (pre @ post) w" using posted_irrelevant by simp
    with L(2) emits_append[OF pre, of post] posted_irrelevant[where cs=pre and w=w] show ?thesis by simp
  qed
  show "emits (pre @ post) w = emits pre w @ emits post (fst (refresh_chats pre w))"
    by (rule emits_append[OF pre])
  show "map_of (chats (data (fst (do_refresh r w)))) k = res"
    using L(3) r2 do_refresh_reports[OF rep, of w] by simp
  have "update_queue (fst (do_refresh r w)) = update_queue ?wp @ emits (pre @ chat # post) ?wp"
    using do_refresh_reports[OF rep, of w] queue_emits[of "pre @ chat # post" ?wp] by simp
  with L(1) post_eq posted_irrelevant[where cs=pre and w=w]
  show "update_queue (fst (do_refresh r w)) =
           update_queue w @ emits pre w @ es @ emits post (fst (refresh_chats pre w))"
    by simp
qed

lemma refresh_chat_baseline:
  assumes "refresh_chat chat w = (w', Normal)"
    and "chat_fields chat = Inr (cid, msg, mid, content)" and "hash_key cid = Some k"
  shows "\<exists>c. map_of (chats (data w')) k = Some c \<and> py_eq (last_msg c) mid"
proof (cases "map_of (chats (data w)) k")
  case None
  from refresh_chat_unseen[OF assms(2,3) None] assms(1) show ?thesis
    by (auto simp: update_conv' py_eq_refl)
next
  case (Some c)
  show ?thesis
  proof (cases "py_ne (last_msg c) mid")
    case False
    from refresh_chat_same[OF assms(2,3) Some False] assms(1) Some False show ?thesis
      by (auto simp: py_ne_def)
  next
    case True
    from refresh_chat_new[OF assms(2,3) Some True] assms(1) show ?thesis
      by (auto simp: Let_def update_conv' py_eq_refl split: sum.splits prod.splits if_splits)
  qed
qed

lemma do_refresh_pre_Normal:
  assumes "reports_once r pre chat post" and "snd (do_refresh r w) = Normal"
  shows "snd (refresh_chats pre w) = Normal"
proof -
  from assms do_refresh_reports[OF assms(1), of w]
  have "snd (refresh_chats (pre @ chat # post) (w\<lparr>posted := posted w @ [chats_query]\<rparr>)) = Normal"
    by simp
  from refresh_chats_append_Normal[OF this] posted_irrelevant[where cs=pre and w=w]
  show ?thesis by simp
qed

lemma cycle_baseline:
  assumes rep: "reports_once r pre chat post" and ok: "snd (do_refresh r w) = Normal"
    and cf: "chat_fields chat = Inr (cid, msg, mid, content)" and hk: "hash_key cid = Some k"
  shows "\<exists>c. map_of (chats (data (fst (do_refresh r w)))) k = Some c \<and> py_eq (last_msg c) mid"
proof -
  let ?wp = "w\<lparr>posted := posted w @ [chats_query]\<rparr>"
  let ?w1 = "fst (refresh_chats pre ?wp)"
  from cf hk have key: "chat_key chat = Some k" by (simp add: chat_key_def)
  with rep have kpost: "Some k \<notin> chat_key ` set post" by (auto simp: reports_once_def)
  from ok do_refresh_reports[OF rep, of w]
  have all: "snd (refresh_chats (pre @ chat # post) ?wp) = Normal" by simp
  from refresh_chats_append_Normal[OF all] have pre: "snd (refresh_chats pre ?wp) = Normal" .
  obtain w2 o2 where s: "refresh_chat chat ?w1 = (w2, o2)" by (cases "refresh_chat chat ?w1")
  from all refresh_chats_append[OF pre, of "chat # post"] s have n: "o2 = Normal"
    by (cases o2) auto
  from refresh_chats_append[OF pre, of "chat # post"] s n
  have "refresh_chats (pre @ chat # post) ?wp = refresh_chats post w2" by simp
  with refresh_chats_other_keys[of post w2 "fst (refresh_chats post w2)" "snd (refresh_chats post w2)" k]
    kpost do_refresh_reports[OF rep, of w]
  have "map_of (chats (data (fst (do_refresh r w)))) k = map_of (chats (data w2)) k" by simp
  with refresh_chat_baseline[OF s[unfolded n] cf hk] show ?thesis by simp
qed

text \<open>A cycle leaves alone a conversation whose reported latest message is its baseline.\<close>

lemma cycle_same:
  assumes rep: "reports_once r pre chat post" and pre: "snd (refresh_chats pre w) = Normal"
    and cf: "chat_fields chat = Inr (cid, msg, mid, content)" and hk: "hash_key cid = Some k"
    and seen: "map_of (chats (data w)) k = Some c" and same: "py_eq (last_msg c) mid"
  shows "update_queue (fst (do_refresh r w)) = update_queue w @ emits (pre @ post) w
       \<and> map_of (chats (data (fst (do_refresh r w)))) k = Some c"
proof -
  have step: "\<exists>w2. refresh_chat chat w1 = (w2, Normal) \<and> update_queue w2 = update_queue w1 @ []
           \<and> map_of (chats (data w2)) k = Some c"
    if "map_of (chats (data w1)) k = map_of (chats (data w)) k" for w1
  proof -
    from that seen have s1: "map_of (chats (data w1)) k = Some c" by simp
    from same have "\<not> py_ne (last_msg c) mid" by (simp add: py_ne_def)
    from refresh_chat_same[OF cf hk s1 this] s1 show ?thesis by simp
  qed
  from cycle_at_chat[OF rep pre cf hk step] show ?thesis by simp
qed

text \<open>A cycle that finds a new message of the user's own.\<close>

lemma cycle_own_message:
  assumes "reports_once r pre chat post" and "snd (refresh_chats pre w) = Normal"
    and "chat_fields chat = Inr (cid, msg, m2, content)" and "hash_key cid = Some k"
    and "map_of (chats (data w)) k = Some c" and "py_ne (last_msg c) m2"
    and "sender_fields msg = Inr (sender, author)" and "py_eq author (self_id (data w))"
  shows "update_queue (fst (do_refresh r w)) = update_queue w @ emits (pre @ post) w"
    and "map_of (chats (data (fst (do_refresh r w)))) k = Some (c\<lparr>last_msg := m2\<rparr>)"
proof -
  have step: "\<exists>w2. refresh_chat chat w1 = (w2, Normal) \<and> update_queue w2 = update_queue w1 @ []
           \<and> map_of (chats (data w2)) k = Some (c\<lparr>last_msg := m2\<rparr>)"
    if "map_of (chats (data w1)) k = map_of (chats (data w)) k"
      and "self_id (data w1) = self_id (data w)" and "update_data (data w1) = update_data (data w)"
    for w1
  proof -
    from that(1) assms(5) have s1: "map_of (chats (data w1)) k = Some c" by simp
    from refresh_chat_new[OF assms(3,4) s1 assms(6)] assms(7,8) that(2,3) show ?thesis
      by (simp add: Let_def update_conv')
  qed
  have q: "update_queue (fst (do_refresh r w)) =
           update_queue w @ emits pre w @ [] @ emits post (fst (refresh_chats pre w))"
    by (rule cycle_at_chat(1)[OF assms(1-4)]) (rule step)
  have e: "emits (pre @ post) w = emits pre w @ emits post (fst (refresh_chats pre w))"
    by (rule emits_append[OF assms(2)])
  from q e show "update_queue (fst (do_refresh r w)) = update_queue w @ emits (pre @ post) w"
    by simp
  show "map_of (chats (data (fst (do_refresh r w)))) k = Some (c\<lparr>last_msg := m2\<rparr>)"
    by (rule cycle_at_chat(3)[OF assms(1-4), where es="[]"]) (rule step)
qed

section \<open>What a cycle does for one conversation\<close>

text \<open>
  C1. Take a cycle whose reply is a success that reports a conversation once, at a place
  the loop reaches (the elements before it raise nothing), the conversation being in the
  session's map with a baseline that differs from the id \<open>m2\<close> of the reported latest
  message, and the author of that message differing from the self id. Then the cycle
  enqueues for it exactly one item, \<open>(update_data, NEWMSG, sender, content)\<close> of that
  message: the queue after the cycle is the queue before it, then what the elements
  before it enqueue, then this item, then \<open>rest\<close>, where without this conversation the
  cycle would enqueue what the elements before it enqueue, then \<open>rest\<close>. And after the
  cycle the baseline of the conversation is \<open>m2\<close>.
\<close>

theorem new_message_enqueued_once:
  assumes "reports_once r pre chat post" and "snd (refresh_chats pre w) = Normal"
    and "chat_fields chat = Inr (cid, msg, m2, content)" and "hash_key cid = Some k"
    and "map_of (chats (data w)) k = Some c" and "py_ne (last_msg c) m2"
    and "sender_fields msg = Inr (sender, author)" and "\<not> py_eq author (self_id (data w))"
  shows "(\<exists>rest. emits (pre @ post) w = emits pre w @ rest
            \<and> update_queue (fst (do_refresh r w)) =
                update_queue w @ emits pre w @ [(update_data (data w), NEWMSG, sender, content)] @ rest)
       \<and> map_of (chats (data (fst (do_refresh r w)))) k = Some (c\<lparr>last_msg := m2\<rparr>)"
proof -
  have step: "\<exists>w2. refresh_chat chat w1 = (w2, Normal)
           \<and> update_queue w2 = update_queue w1 @ [(update_data (data w), NEWMSG, sender, content)]
           \<and> map_of (chats (data w2)) k = Some (c\<lparr>last_msg := m2\<rparr>)"
    if "map_of (chats (data w1)) k = map_of (chats (data w)) k"
      and "self_id (data w1) = self_id (data w)" and "update_data (data w1) = update_data (data w)"
    for w1
  proof -
    from that(1) assms(5) have s1: "map_of (chats (data w1)) k = Some c" by simp
    from refresh_chat_new[OF assms(3,4) s1 assms(6)] assms(7,8) that(2,3) show ?thesis
      by (simp add: Let_def update_conv')
  qed
  have q: "update_queue (fst (do_refresh r w)) =
           update_queue w @ emits pre w @ [(update_data (data w), NEWMSG, sender, content)]
             @ emits post (fst (refresh_chats pre w))"
    by (rule cycle_at_chat(1)[OF assms(1-4)]) (rule step)
  have e: "emits (pre @ post) w = emits pre w @ emits post (fst (refresh_chats pre w))"
    by (rule emits_append[OF assms(2)])
  have b: "map_of (chats (data (fst (do_refresh r w)))) k = Some (c\<lparr>last_msg := m2\<rparr>)"
    by (rule cycle_at_chat(3)[OF assms(1-4),
          where es="[(update_data (data w), NEWMSG, sender, content)]"]) (rule step)
  from q e have "\<exists>rest. emits (pre @ post) w = emits pre w @ rest
            \<and> update_queue (fst (do_refresh r w)) =
                update_queue w @ emits pre w @ [(update_data (data w), NEWMSG, sender, content)] @ rest"
    by (intro exI[of _ "emits post (fst (refresh_chats pre w))"] conjI)
  with b show ?thesis by (intro conjI)
qed

theorem new_message_enqueued_once_witness:
  "update_queue (fst (do_refresh
      (example_reply [example_chat ''c0'' ''m9'' ''u3'' ''Eve'' ''old'',
         example_chat ''c1'' ''m2'' ''u2'' ''Bob'' ''hi''])
      (example_refresher [(JStr ''c1'', \<lparr>id' = JStr ''c1'', last_msg = JStr ''m1''\<rparr>)] [])))
   = [(42, NEWMSG, JStr ''Bob'', JStr ''hi'')]
   \<and> map_of (chats (data (fst (do_refresh
      (example_reply [example_chat ''c0'' ''m9'' ''u3'' ''Eve'' ''old'',
         example_chat ''c1'' ''m2'' ''u2'' ''Bob'' ''hi''])
      (example_refresher [(JStr ''c1'', \<lparr>id' = JStr ''c1'', last_msg = JStr ''m1''\<rparr>)] []))))) (JStr ''c1'')
     = Some \<lparr>id' = JStr ''c1'', last_msg = JStr ''m2''\<rparr>"
proof -
  have rep: "reports_once
      (example_reply [example_chat ''c0'' ''m9'' ''u3'' ''Eve'' ''old'',
         example_chat ''c1'' ''m2'' ''u2'' ''Bob'' ''hi''])
      [example_chat ''c0'' ''m9'' ''u3'' ''Eve'' ''old'']
      (example_chat ''c1'' ''m2'' ''u2'' ''Bob'' ''hi'')
      []"
    by (simp add: reports_once_def reported_chats_def chat_key_def chat_fields_def)
  have pre: "snd (refresh_chats [example_chat ''c0'' ''m9'' ''u3'' ''Eve'' ''old'']
      (example_refresher [(JStr ''c1'', \<lparr>id' = JStr ''c1'', last_msg = JStr ''m1''\<rparr>)] [])) = Normal"
    by (simp add: refresh_chat_def chat_fields_def sender_fields_def py_ne_def py_eq_def)
  have cf: "chat_fields (example_chat ''c1'' ''m2'' ''u2'' ''Bob'' ''hi'')
      = Inr (JStr ''c1'', example_msg ''m2'' ''u2'' ''Bob'' ''hi'', JStr ''m2'', JStr ''hi'')"
    by (simp add: chat_fields_def)
  have hk: "hash_key (JStr ''c1'') = Some (JStr ''c1'')"
    by simp
  have seen: "map_of (chats (data
      (example_refresher [(JStr ''c1'', \<lparr>id' = JStr ''c1'', last_msg = JStr ''m1''\<rparr>)] []))) (JStr ''c1'')
      = Some \<lparr>id' = JStr ''c1'', last_msg = JStr ''m1''\<rparr>"
    by simp
  have ne: "py_ne (last_msg \<lparr>id' = JStr ''c1'', last_msg = JStr ''m1''\<rparr>) (JStr ''m2'')"
    by (simp add: py_ne_def py_eq_def)
  have sf: "sender_fields (example_msg ''m2'' ''u2'' ''Bob'' ''hi'')
      = Inr (JStr ''Bob'', JStr ''u2'')"
    by (simp add: sender_fields_def)
  have na: "\<not> py_eq (JStr ''u2'') (self_id (data
      (example_refresher [(JStr ''c1'', \<lparr>id' = JStr ''c1'', last_msg = JStr ''m1''\<rparr>)] [])))"
    by (simp add: py_eq_def)
  from new_message_enqueued_once [OF rep pre cf hk seen ne sf na] show ?thesis
    by (simp add: reports_once_def reported_chats_def chat_key_def chat_fields_def
        sender_fields_def py_ne_def py_eq_def emits_def refresh_chat_def do_refresh_def api_def
        NEWMSG_def)
qed

text \<open>
  C2. Take a cycle whose reply is a success that reports, once and at a place the loop
  reaches, a conversation that is not in the session's map. Whatever the latest message
  is (its content, its author, even a message without a profile), the cycle enqueues
  nothing for it: it enqueues exactly what it would enqueue if the reply did not report
  this conversation. And after the cycle the map holds the conversation with the id of
  the reported latest message as its baseline.
\<close>

theorem first_observation_is_silent:
  assumes "reports_once r pre chat post" and "snd (refresh_chats pre w) = Normal"
    and "chat_fields chat = Inr (cid, msg, mid, content)" and "hash_key cid = Some k"
    and "map_of (chats (data w)) k = None"
  shows "update_queue (fst (do_refresh r w)) = update_queue w @ emits (pre @ post) w
       \<and> map_of (chats (data (fst (do_refresh r w)))) k = Some \<lparr>id' = cid, last_msg = mid\<rparr>"
proof -
  have step: "\<exists>w2. refresh_chat chat w1 = (w2, Normal) \<and> update_queue w2 = update_queue w1 @ []
           \<and> map_of (chats (data w2)) k = Some \<lparr>id' = cid, last_msg = mid\<rparr>"
    if "map_of (chats (data w1)) k = map_of (chats (data w)) k" for w1
  proof -
    from that assms(5) have s1: "map_of (chats (data w1)) k = None" by simp
    from refresh_chat_unseen[OF assms(3,4) s1] show ?thesis by (simp add: update_conv')
  qed
  have q: "update_queue (fst (do_refresh r w)) =
           update_queue w @ emits pre w @ [] @ emits post (fst (refresh_chats pre w))"
    by (rule cycle_at_chat(1)[OF assms(1-4)]) (rule step)
  have e: "emits (pre @ post) w = emits pre w @ emits post (fst (refresh_chats pre w))"
    by (rule emits_append[OF assms(2)])
  have b: "map_of (chats (data (fst (do_refresh r w)))) k = Some \<lparr>id' = cid, last_msg = mid\<rparr>"
    by (rule cycle_at_chat(3)[OF assms(1-4), where es="[]"]) (rule step)
  from q e b show ?thesis by simp
qed

theorem first_observation_is_silent_witness:
  "update_queue (fst (do_refresh
      (example_reply [example_chat ''c0'' ''m9'' ''u3'' ''Eve'' ''old'',
         example_chat ''c1'' ''m2'' ''u2'' ''Bob'' ''hi''])
      (example_refresher [(JStr ''c1'', \<lparr>id' = JStr ''c1'', last_msg = JStr ''m1''\<rparr>)] [])))
   = [(42, NEWMSG, JStr ''Bob'', JStr ''hi'')]
   \<and> emits [example_chat ''c1'' ''m2'' ''u2'' ''Bob'' ''hi'']
       (example_refresher [(JStr ''c1'', \<lparr>id' = JStr ''c1'', last_msg = JStr ''m1''\<rparr>)] [])
     = [(42, NEWMSG, JStr ''Bob'', JStr ''hi'')]
   \<and> map_of (chats (data (fst (do_refresh
      (example_reply [example_chat ''c0'' ''m9'' ''u3'' ''Eve'' ''old'',
         example_chat ''c1'' ''m2'' ''u2'' ''Bob'' ''hi''])
      (example_refresher [(JStr ''c1'', \<lparr>id' = JStr ''c1'', last_msg = JStr ''m1''\<rparr>)] []))))) (JStr ''c0'')
     = Some \<lparr>id' = JStr ''c0'', last_msg = JStr ''m9''\<rparr>"
proof -
  have rep: "reports_once
      (example_reply [example_chat ''c0'' ''m9'' ''u3'' ''Eve'' ''old'',
         example_chat ''c1'' ''m2'' ''u2'' ''Bob'' ''hi''])
      []
      (example_chat ''c0'' ''m9'' ''u3'' ''Eve'' ''old'')
      [example_chat ''c1'' ''m2'' ''u2'' ''Bob'' ''hi'']"
    by (simp add: reports_once_def reported_chats_def chat_key_def chat_fields_def)
  have pre: "snd (refresh_chats []
      (example_refresher [(JStr ''c1'', \<lparr>id' = JStr ''c1'', last_msg = JStr ''m1''\<rparr>)] [])) = Normal"
    by (simp add: refresh_chat_def chat_fields_def sender_fields_def py_ne_def py_eq_def)
  have cf: "chat_fields (example_chat ''c0'' ''m9'' ''u3'' ''Eve'' ''old'')
      = Inr (JStr ''c0'', example_msg ''m9'' ''u3'' ''Eve'' ''old'', JStr ''m9'', JStr ''old'')"
    by (simp add: chat_fields_def)
  have hk: "hash_key (JStr ''c0'') = Some (JStr ''c0'')"
    by simp
  have unseen: "map_of (chats (data
      (example_refresher [(JStr ''c1'', \<lparr>id' = JStr ''c1'', last_msg = JStr ''m1''\<rparr>)] []))) (JStr ''c0'') = None"
    by simp
  from first_observation_is_silent [OF rep pre cf hk unseen] show ?thesis
    by (simp add: reports_once_def reported_chats_def chat_key_def chat_fields_def
        sender_fields_def py_ne_def py_eq_def emits_def refresh_chat_def do_refresh_def api_def
        NEWMSG_def)
qed

text \<open>
  C3. Take a cycle whose reply is a success that reports a conversation once, at a place
  the loop reaches. If the conversation is in the session's map with a baseline equal to
  the id of the reported latest message, the cycle enqueues nothing for it (it enqueues
  exactly what it would enqueue if the reply did not report this conversation) and leaves
  its entry as it is. In particular, when the same reply is polled twice and both cycles
  end normally, the second cycle enqueues nothing for the conversation and leaves its
  entry as the first cycle left it, whatever the first cycle found.
\<close>

theorem unchanged_message_is_silent:
  assumes "reports_once r pre chat post" and "snd (refresh_chats pre w) = Normal"
    and "chat_fields chat = Inr (cid, msg, mid, content)" and "hash_key cid = Some k"
  shows "(map_of (chats (data w)) k = Some c \<and> py_eq (last_msg c) mid \<longrightarrow>
            update_queue (fst (do_refresh r w)) = update_queue w @ emits (pre @ post) w
            \<and> map_of (chats (data (fst (do_refresh r w)))) k = Some c)
       \<and> (snd (do_refresh r w) = Normal \<and> snd (do_refresh r (fst (do_refresh r w))) = Normal \<longrightarrow>
            update_queue (fst (do_refresh r (fst (do_refresh r w)))) =
              update_queue (fst (do_refresh r w)) @ emits (pre @ post) (fst (do_refresh r w))
            \<and> map_of (chats (data (fst (do_refresh r (fst (do_refresh r w)))))) k =
                map_of (chats (data (fst (do_refresh r w)))) k)"
proof -
  have one: "update_queue (fst (do_refresh r w)) = update_queue w @ emits (pre @ post) w
            \<and> map_of (chats (data (fst (do_refresh r w)))) k = Some c"
    if "map_of (chats (data w)) k = Some c" "py_eq (last_msg c) mid"
    using cycle_same[OF assms that] .
  have two: "update_queue (fst (do_refresh r (fst (do_refresh r w)))) =
              update_queue (fst (do_refresh r w)) @ emits (pre @ post) (fst (do_refresh r w))
            \<and> map_of (chats (data (fst (do_refresh r (fst (do_refresh r w)))))) k =
                map_of (chats (data (fst (do_refresh r w)))) k"
    if ok: "snd (do_refresh r w) = Normal" "snd (do_refresh r (fst (do_refresh r w))) = Normal"
  proof -
    from cycle_baseline[OF assms(1) ok(1) assms(3,4)] obtain c'
      where c': "map_of (chats (data (fst (do_refresh r w)))) k = Some c'" "py_eq (last_msg c') mid"
      by blast
    from do_refresh_pre_Normal[OF assms(1) ok(2)]
    have pre': "snd (refresh_chats pre (fst (do_refresh r w))) = Normal" .
    from cycle_same[OF assms(1) pre' assms(3,4) c'] c'(1) show ?thesis by simp
  qed
  from one two show ?thesis by (intro conjI impI) simp_all
qed

theorem unchanged_message_is_silent_witness:
  "update_queue (fst (do_refresh
      (example_reply [example_chat ''c1'' ''m1'' ''u2'' ''Bob'' ''hello''])
      (example_refresher [(JStr ''c1'', \<lparr>id' = JStr ''c1'', last_msg = JStr ''m1''\<rparr>)] []))) = []
   \<and> map_of (chats (data (fst (do_refresh
      (example_reply [example_chat ''c1'' ''m1'' ''u2'' ''Bob'' ''hello''])
      (example_refresher [(JStr ''c1'', \<lparr>id' = JStr ''c1'', last_msg = JStr ''m1''\<rparr>)] []))))) (JStr ''c1'')
     = Some \<lparr>id' = JStr ''c1'', last_msg = JStr ''m1''\<rparr>
   \<and> update_queue (fst (do_refresh
      (example_reply [example_chat ''c1'' ''m1'' ''u2'' ''Bob'' ''hello''])
      (fst (do_refresh
      (example_reply [example_chat ''c1'' ''m1'' ''u2'' ''Bob'' ''hello''])
      (example_refresher [(JStr ''c1'', \<lparr>id' = JStr ''c1'', last_msg = JStr ''m1''\<rparr>)] []))))) = []"
proof -
  have rep: "reports_once
      (example_reply [example_chat ''c1'' ''m1'' ''u2'' ''Bob'' ''hello''])
      []
      (example_chat ''c1'' ''m1'' ''u2'' ''Bob'' ''hello'')
      []"
    by (simp add: reports_once_def reported_chats_def chat_key_def chat_fields_def)
  have pre: "snd (refresh_chats []
      (example_refresher [(JStr ''c1'', \<lparr>id' = JStr ''c1'', last_msg = JStr ''m1''\<rparr>)] [])) = Normal"
    by (simp add: refresh_chat_def chat_fields_def sender_fields_def py_ne_def py_eq_def)
  have cf: "chat_fields (example_chat ''c1'' ''m1'' ''u2'' ''Bob'' ''hello'')
      = Inr (JStr ''c1'', example_msg ''m1'' ''u2'' ''Bob'' ''hello'', JStr ''m1'', JStr ''hello'')"
    by (simp add: chat_fields_def)
  have hk: "hash_key (JStr ''c1'') = Some (JStr ''c1'')"
    by simp
  have same: "map_of (chats (data
      (example_refresher [(JStr ''c1'', \<lparr>id' = JStr ''c1'', last_msg = JStr ''m1''\<rparr>)] []))) (JStr ''c1'')
      = Some \<lparr>id' = JStr ''c1'', last_msg = JStr ''m1''\<rparr>
    \<and> py_eq (last_msg \<lparr>id' = JStr ''c1'', last_msg = JStr ''m1''\<rparr>) (JStr ''m1'')"
    by (simp add: py_eq_def)
  have twice: "snd (do_refresh
      (example_reply [example_chat ''c1'' ''m1'' ''u2'' ''Bob'' ''hello''])
      (example_refresher [(JStr ''c1'', \<lparr>id' = JStr ''c1'', last_msg = JStr ''m1''\<rparr>)] [])) = Normal
    \<and> snd (do_refresh
      (example_reply [example_chat ''c1'' ''m1'' ''u2'' ''Bob'' ''hello''])
      (fst (do_refresh
      (example_reply [example_chat ''c1'' ''m1'' ''u2'' ''Bob'' ''hello''])
      (example_refresher [(JStr ''c1'', \<lparr>id' = JStr ''c1'', last_msg = JStr ''m1''\<rparr>)] [])))) = Normal"
    by (simp add: reports_once_def reported_chats_def chat_key_def chat_fields_def
        sender_fields_def py_ne_def py_eq_def emits_def refresh_chat_def do_refresh_def api_def
        NEWMSG_def)
  note t = unchanged_message_is_silent [OF rep pre cf hk, where c = "\<lparr>id' = JStr ''c1'', last_msg = JStr ''m1''\<rparr>"]
  from t [THEN conjunct1, THEN mp, OF same] t [THEN conjunct2, THEN mp, OF twice]
  show ?thesis
    by (simp add: reports_once_def reported_chats_def chat_key_def chat_fields_def
        sender_fields_def py_ne_def py_eq_def emits_def refresh_chat_def do_refresh_def api_def
        NEWMSG_def)
qed

text \<open>
  C4. Take a cycle whose reply is a success that reports a conversation once, at a place
  the loop reaches, the conversation being in the session's map with a baseline that
  differs from the id of the reported latest message, and the author of that message
  being equal to the self id. Then the cycle enqueues nothing for it: it enqueues exactly
  what it would enqueue if the reply did not report this conversation.
\<close>

theorem own_message_is_silent:
  assumes "reports_once r pre chat post" and "snd (refresh_chats pre w) = Normal"
    and "chat_fields chat = Inr (cid, msg, m2, content)" and "hash_key cid = Some k"
    and "map_of (chats (data w)) k = Some c" and "py_ne (last_msg c) m2"
    and "sender_fields msg = Inr (sender, author)" and "py_eq author (self_id (data w))"
  shows "update_queue (fst (do_refresh r w)) = update_queue w @ emits (pre @ post) w"
  by (rule cycle_own_message(1)[OF assms])

theorem own_message_is_silent_witness:
  "update_queue (fst (do_refresh
      (example_reply [example_chat ''c1'' ''m2'' ''me'' ''Me'' ''sent''])
      (example_refresher [(JStr ''c1'', \<lparr>id' = JStr ''c1'', last_msg = JStr ''m1''\<rparr>)] []))) = []"
proof -
  have rep: "reports_once
      (example_reply [example_chat ''c1'' ''m2'' ''me'' ''Me'' ''sent''])
      []
      (example_chat ''c1'' ''m2'' ''me'' ''Me'' ''sent'')
      []"
    by (simp add: reports_once_def reported_chats_def chat_key_def chat_fields_def)
  have pre: "snd (refresh_chats []
      (example_refresher [(JStr ''c1'', \<lparr>id' = JStr ''c1'', last_msg = JStr ''m1''\<rparr>)] [])) = Normal"
    by (simp add: refresh_chat_def chat_fields_def sender_fields_def py_ne_def py_eq_def)
  have cf: "chat_fields (example_chat ''c1'' ''m2'' ''me'' ''Me'' ''sent'')
      = Inr (JStr ''c1'', example_msg ''m2'' ''me'' ''Me'' ''sent'', JStr ''m2'', JStr ''sent'')"
    by (simp add: chat_fields_def)
  have hk: "hash_key (JStr ''c1'') = Some (JStr ''c1'')"
    by simp
  have seen: "map_of (chats (data
      (example_refresher [(JStr ''c1'', \<lparr>id' = JStr ''c1'', last_msg = JStr ''m1''\<rparr>)] []))) (JStr ''c1'')
      = Some \<lparr>id' = JStr ''c1'', last_msg = JStr ''m1''\<rparr>"
    by simp
  have ne: "py_ne (last_msg \<lparr>id' = JStr ''c1'', last_msg = JStr ''m1''\<rparr>) (JStr ''m2'')"
    by (simp add: py_ne_def py_eq_def)
  have sf: "sender_fields (example_msg ''m2'' ''me'' ''Me'' ''sent'')
      = Inr (JStr ''Me'', JStr ''me'')"
    by (simp add: sender_fields_def)
  have own: "py_eq (JStr ''me'') (self_id (data
      (example_refresher [(JStr ''c1'', \<lparr>id' = JStr ''c1'', last_msg = JStr ''m1''\<rparr>)] [])))"
    by (simp add: py_eq_def)
  from own_message_is_silent [OF rep pre cf hk seen ne sf own] show ?thesis
    by (simp add: reports_once_def reported_chats_def chat_key_def chat_fields_def
        sender_fields_def py_ne_def py_eq_def emits_def refresh_chat_def do_refresh_def api_def
        NEWMSG_def)
qed

text \<open>
  C10. In the cycle of C4 (a seen conversation, a latest message with a new id \<open>m2\<close>,
  written by the user) the baseline of the conversation is \<open>m2\<close> after the cycle, and
  nothing is enqueued for it. And from any later state \<open>w'\<close> in which the baseline is
  \<open>m2\<close>, a cycle whose reply \<open>r'\<close> again reports \<open>m2\<close> as the latest message of the
  conversation enqueues nothing for it and leaves the entry, so the baseline, as it is:
  as long as the message remains the latest one, no poll notifies it.
\<close>

theorem own_message_moves_baseline:
  assumes "reports_once r pre chat post" and "snd (refresh_chats pre w) = Normal"
    and "chat_fields chat = Inr (cid, msg, m2, content)" and "hash_key cid = Some k"
    and "map_of (chats (data w)) k = Some c" and "py_ne (last_msg c) m2"
    and "sender_fields msg = Inr (sender, author)" and "py_eq author (self_id (data w))"
  shows "map_of (chats (data (fst (do_refresh r w)))) k = Some (c\<lparr>last_msg := m2\<rparr>)
       \<and> update_queue (fst (do_refresh r w)) = update_queue w @ emits (pre @ post) w
       \<and> (reports_once r' pre' chat' post' \<and> snd (refresh_chats pre' w') = Normal
            \<and> chat_fields chat' = Inr (cid', msg', m', content') \<and> hash_key cid' = Some k
            \<and> py_eq m2 m'
            \<and> map_of (chats (data w')) k = Some c' \<and> py_eq (last_msg c') m2 \<longrightarrow>
            update_queue (fst (do_refresh r' w')) = update_queue w' @ emits (pre' @ post') w'
            \<and> map_of (chats (data (fst (do_refresh r' w')))) k = Some c')"
proof -
  note first = cycle_own_message[OF assms]
  have later: "update_queue (fst (do_refresh r' w')) = update_queue w' @ emits (pre' @ post') w'
            \<and> map_of (chats (data (fst (do_refresh r' w')))) k = Some c'"
    if "reports_once r' pre' chat' post'" "snd (refresh_chats pre' w') = Normal"
      "chat_fields chat' = Inr (cid', msg', m', content')" "hash_key cid' = Some k"
      "py_eq m2 m'" "map_of (chats (data w')) k = Some c'" "py_eq (last_msg c') m2"
  proof -
    from that(5,7) have "py_eq (last_msg c') m'" by (simp add: py_eq_def)
    from cycle_same[OF that(1-4,6) this] show ?thesis .
  qed
  from first later show ?thesis by (intro conjI impI) simp_all
qed

theorem own_message_moves_baseline_witness:
  "map_of (chats (data (fst (do_refresh
      (example_reply [example_chat ''c1'' ''m2'' ''me'' ''Me'' ''sent''])
      (example_refresher [(JStr ''c1'', \<lparr>id' = JStr ''c1'', last_msg = JStr ''m1''\<rparr>)] []))))) (JStr ''c1'')
     = Some \<lparr>id' = JStr ''c1'', last_msg = JStr ''m2''\<rparr>
   \<and> update_queue (fst (do_refresh
      (example_reply [example_chat ''c1'' ''m2'' ''me'' ''Me'' ''sent''])
      (example_refresher [(JStr ''c1'', \<lparr>id' = JStr ''c1'', last_msg = JStr ''m1''\<rparr>)] []))) = []
   \<and> update_queue (fst (do_refresh
      (example_reply [example_chat ''c1'' ''m2'' ''me'' ''Me'' ''sent''])
      (example_refresher [(JStr ''c1'', \<lparr>id' = JStr ''c1'', last_msg = JStr ''m2''\<rparr>)] [chats_query]))) = []
   \<and> map_of (chats (data (fst (do_refresh
      (example_reply [example_chat ''c1'' ''m2'' ''me'' ''Me'' ''sent''])
      (example_refresher [(JStr ''c1'', \<lparr>id' = JStr ''c1'', last_msg = JStr ''m2''\<rparr>)] [chats_query]))))) (JStr ''c1'')
     = Some \<lparr>id' = JStr ''c1'', last_msg = JStr ''m2''\<rparr>"
proof -
  have rep: "reports_once
      (example_reply [example_chat ''c1'' ''m2'' ''me'' ''Me'' ''sent''])
      []
      (example_chat ''c1'' ''m2'' ''me'' ''Me'' ''sent'')
      []"
    by (simp add: reports_once_def reported_chats_def chat_key_def chat_fields_def)
  have pre: "snd (refresh_chats []
      (example_refresher [(JStr ''c1'', \<lparr>id' = JStr ''c1'', last_msg = JStr ''m1''\<rparr>)] [])) = Normal"
    by (simp add: refresh_chat_def chat_fields_def sender_fields_def py_ne_def py_eq_def)
  have cf: "chat_fields (example_chat ''c1'' ''m2'' ''me'' ''Me'' ''sent'')
      = Inr (JStr ''c1'', example_msg ''m2'' ''me'' ''Me'' ''sent'', JStr ''m2'', JStr ''sent'')"
    by (simp add: chat_fields_def)
  have hk: "hash_key (JStr ''c1'') = Some (JStr ''c1'')"
    by simp
  have seen: "map_of (chats (data
      (example_refresher [(JStr ''c1'', \<lparr>id' = JStr ''c1'', last_msg = JStr ''m1''\<rparr>)] []))) (JStr ''c1'')
      = Some \<lparr>id' = JStr ''c1'', last_msg = JStr ''m1''\<rparr>"
    by simp
  have ne: "py_ne (last_msg \<lparr>id' = JStr ''c1'', last_msg = JStr ''m1''\<rparr>) (JStr ''m2'')"
    by (simp add: py_ne_def py_eq_def)
  have sf: "sender_fields (example_msg ''m2'' ''me'' ''Me'' ''sent'')
      = Inr (JStr ''Me'', JStr ''me'')"
    by (simp add: sender_fields_def)
  have own: "py_eq (JStr ''me'') (self_id (data
      (example_refresher [(JStr ''c1'', \<lparr>id' = JStr ''c1'', last_msg = JStr ''m1''\<rparr>)] [])))"
    by (simp add: py_eq_def)
  have later: "reports_once
      (example_reply [example_chat ''c1'' ''m2'' ''me'' ''Me'' ''sent''])
      [] (example_chat ''c1'' ''m2'' ''me'' ''Me'' ''sent'') []
    \<and> snd (refresh_chats []
      (example_refresher [(JStr ''c1'', \<lparr>id' = JStr ''c1'', last_msg = JStr ''m2''\<rparr>)] [chats_query])) = Normal
    \<and> chat_fields (example_chat ''c1'' ''m2'' ''me'' ''Me'' ''sent'')
      = Inr (JStr ''c1'', example_msg ''m2'' ''me'' ''Me'' ''sent'', JStr ''m2'', JStr ''sent'')
    \<and> hash_key (JStr ''c1'') = Some (JStr ''c1'')
    \<and> py_eq (JStr ''m2'') (JStr ''m2'')
    \<and> map_of (chats (data
      (example_refresher [(JStr ''c1'', \<lparr>id' = JStr ''c1'', last_msg = JStr ''m2''\<rparr>)] [chats_query]))) (JStr ''c1'')
      = Some \<lparr>id' = JStr ''c1'', last_msg = JStr ''m2''\<rparr>
    \<and> py_eq (last_msg \<lparr>id' = JStr ''c1'', last_msg = JStr ''m2''\<rparr>) (JStr ''m2'')"
    by (simp add: reports_once_def reported_chats_def chat_key_def chat_fields_def py_eq_def)
  note t = own_message_moves_baseline [OF rep pre cf hk seen ne sf own]
  from t [THEN conjunct1] t [THEN conjunct2, THEN conjunct1]
    t [THEN conjunct2, THEN conjunct2, THEN mp, OF later]
  show ?thesis
    by (simp add: reports_once_def reported_chats_def chat_key_def chat_fields_def
        sender_fields_def py_ne_def py_eq_def emits_def refresh_chat_def do_refresh_def api_def
        NEWMSG_def)
qed

end
